theory Spec2Isabelle
  imports Complex_Main "HOL-Library.AList" "HOL-Library.Sublist"
begin

section \<open>The daily agent KPI pipeline of \<^verbatim>\<open>app.py\<close>\<close>

text \<open>
  The class \<^verbatim>\<open>Pipeline\<close> of \<^verbatim>\<open>app.py\<close> reads four sheets of a workbook, normalises them,
  builds the table of distinct (date, agentmis) pairs, aggregates every sheet per pair and
  left-joins the four aggregates onto that table. Its methods are embedded here as functions over
  an explicit pipeline state; an exception is the left summand of the result, and the state that
  comes with it is the object as the exception leaves it.

  The tabular engine is a library. What the pipeline asks of it is written out (columns looked up
  by label, first-occurrence de-duplication, grouping that skips missing keys, the left join,
  replacing missing values); what only the library decides (which stored text the loader
  turns into numbers or empty cells, which text is a date, how a number or a timestamp prints,
  what adding text cells gives) is a field of the record \<open>pandas\<close> that every function takes
  as its first argument.
\<close>

subsection \<open>Cells, frames, workbooks\<close>

text \<open>
  A cell: empty (NaN, and NaT in a date column), an integer, a float, text, or a timestamp
  (nanoseconds since the epoch). Floats are idealised as rationals. A workbook holds the cells
  as they are stored; a frame holds them as the loader delivers them.
\<close>

datatype cell = Missing | IntV int | FloatV rat | StrV string | TsV int

text \<open>A frame is its columns in order, each a label and the values of the rows.\<close>

type_synonym frame = "(string \<times> cell list) list"

type_synonym workbook = "(string \<times> frame) list"

type_synonym key = "cell \<times> cell"

text \<open>
  The table under construction (\<^verbatim>\<open>self.base\<close>) and the aggregates joined onto it: the column
  labels in order, and per row the (date, agentmis) pair and the values of the other columns.
\<close>

record table =
  tcolumns :: "string list"
  trows :: "(key \<times> cell list) list"

text \<open>
  The exceptions that can leave the pipeline. \<open>DateParseError c\<close> is what
  \<^verbatim>\<open>pd.to_datetime\<close> raises for a cell \<open>c\<close> it rejects. In Python it is a
  \<^verbatim>\<open>ValueError\<close>; the constructor only records where it came from, and
  \<open>is_ValueError\<close> is what \<^verbatim>\<open>except ValueError\<close> tests.
\<close>

datatype error =
    ValueError string
  | KeyError string
  | TypeError string
  | AttributeError string
  | DateParseError cell

definition is_ValueError :: "error \<Rightarrow> bool" where
  "is_ValueError e = (case e of ValueError m \<Rightarrow> True | DateParseError c \<Rightarrow> True | _ \<Rightarrow> False)"

text \<open>
  The library: the type inference of the loader on a column of stored cells, the date parser
  (\<open>None\<close>: rejected, \<open>Some None\<close>: NaT), \<^verbatim>\<open>str\<close> of a number or a timestamp,
  \<^verbatim>\<open>strftime('%Y-%m-%d')\<close>, \<^verbatim>\<open>sum\<close> over floats with the machine's rounding, and \<^verbatim>\<open>sum\<close>
  over cells of a column that is not numeric.
\<close>

record pandas =
  infer_types :: "cell list \<Rightarrow> cell list"
  parse_datetime :: "cell \<Rightarrow> int option option"
  py_str :: "cell \<Rightarrow> string"
  strftime :: "int \<Rightarrow> string"
  float_sum :: "rat list \<Rightarrow> rat"
  object_sum :: "cell list \<Rightarrow> error + cell"

record pipeline =
  file' :: workbook
  cho :: "frame option"
  cht :: "frame option"
  chd :: "frame option"
  che :: "frame option"
  base :: "table option"
  stats :: "string \<rightharpoonup> cell"

definition Pipeline :: "workbook \<Rightarrow> pipeline" where
  "Pipeline f = \<lparr>file' = f, cho = None, cht = None, chd = None, che = None, base = None,
     stats = Map.empty\<rparr>"

subsection \<open>Errors and sequencing\<close>

definition bind_err :: "error + 'a \<Rightarrow> ('a \<Rightarrow> error + 'b) \<Rightarrow> error + 'b" where
  "bind_err r f = (case r of Inl e \<Rightarrow> Inl e | Inr v \<Rightarrow> f v)"

fun sequence_err :: "(error + 'a) list \<Rightarrow> error + 'a list" where
  "sequence_err [] = Inr []"
| "sequence_err (r # rs) =
     (case r of Inl e \<Rightarrow> Inl e
      | Inr v \<Rightarrow> (case sequence_err rs of Inl e \<Rightarrow> Inl e | Inr vs \<Rightarrow> Inr (v # vs)))"

text \<open>
  One statement after another on the object: when the first raises, the exception and the state
  it left are the result; otherwise the next statement runs on the new state.
\<close>

definition then_do ::
  "(error + 'a) \<times> pipeline \<Rightarrow> (pipeline \<Rightarrow> (error + 'b) \<times> pipeline) \<Rightarrow> (error + 'b) \<times> pipeline" where
  "then_do r f = (case r of (Inl e, p) \<Rightarrow> (Inl e, p) | (Inr v, p) \<Rightarrow> f p)"

subsection \<open>Text\<close>

text \<open>
  \<^verbatim>\<open>str.lower\<close>, \<^verbatim>\<open>str.strip\<close> and \<^verbatim>\<open>', '.join\<close>. A character stands for a code
  point below 256: the letters with a lower-case form are A to Z and the accented capitals
  of Latin-1, and the blanks that \<^verbatim>\<open>strip\<close> removes include U+0085 and the no-break space.
\<close>

definition upper_latin1 :: string where
  "upper_latin1 =
    [CHR 0xC0, CHR 0xC1, CHR 0xC2, CHR 0xC3, CHR 0xC4, CHR 0xC5, CHR 0xC6, CHR 0xC7,
     CHR 0xC8, CHR 0xC9, CHR 0xCA, CHR 0xCB, CHR 0xCC, CHR 0xCD, CHR 0xCE, CHR 0xCF,
     CHR 0xD0, CHR 0xD1, CHR 0xD2, CHR 0xD3, CHR 0xD4, CHR 0xD5, CHR 0xD6, CHR 0xD8,
     CHR 0xD9, CHR 0xDA, CHR 0xDB, CHR 0xDC, CHR 0xDD, CHR 0xDE]"

definition lower_latin1 :: string where
  "lower_latin1 =
    [CHR 0xE0, CHR 0xE1, CHR 0xE2, CHR 0xE3, CHR 0xE4, CHR 0xE5, CHR 0xE6, CHR 0xE7,
     CHR 0xE8, CHR 0xE9, CHR 0xEA, CHR 0xEB, CHR 0xEC, CHR 0xED, CHR 0xEE, CHR 0xEF,
     CHR 0xF0, CHR 0xF1, CHR 0xF2, CHR 0xF3, CHR 0xF4, CHR 0xF5, CHR 0xF6, CHR 0xF8,
     CHR 0xF9, CHR 0xFA, CHR 0xFB, CHR 0xFC, CHR 0xFD, CHR 0xFE]"

definition lower_char :: "char \<Rightarrow> char" where
  "lower_char c =
     (case map_of (zip (''ABCDEFGHIJKLMNOPQRSTUVWXYZ'' @ upper_latin1)
                       (''abcdefghijklmnopqrstuvwxyz'' @ lower_latin1)) c of
        None \<Rightarrow> c | Some d \<Rightarrow> d)"

definition lower :: "string \<Rightarrow> string" where
  "lower s = map lower_char s"

definition is_space :: "char \<Rightarrow> bool" where
  "is_space c = (c \<in> set [CHR 0x09, CHR 0x0A, CHR 0x0B, CHR 0x0C, CHR 0x0D,
     CHR 0x1C, CHR 0x1D, CHR 0x1E, CHR 0x1F, CHR 0x20, CHR 0x85, CHR 0xA0])"

definition strip :: "string \<Rightarrow> string" where
  "strip s = rev (dropWhile is_space (rev (dropWhile is_space s)))"

fun join :: "string \<Rightarrow> string list \<Rightarrow> string" where
  "join sep [] = []"
| "join sep [x] = x"
| "join sep (x # y # ys) = x @ sep @ join sep (y # ys)"

text \<open>
  \<^verbatim>\<open>astype(str)\<close> on one cell: text stays as it is, an empty cell becomes the text \<^verbatim>\<open>nan\<close>,
  a number or a timestamp prints the way the library prints it. (The empty cell is treated as
  the library does up to version 2. From version 3 on it stays empty; every comparison with
  a literal below has the same outcome either way, since an empty cell equals no literal.)
\<close>

definition astype_str :: "pandas \<Rightarrow> cell \<Rightarrow> string" where
  "astype_str L c = (case c of StrV s \<Rightarrow> s | Missing \<Rightarrow> ''nan'' | _ \<Rightarrow> py_str L c)"

text \<open>\<^verbatim>\<open>x.astype(str).str.lower()\<close>, one cell at a time.\<close>

definition str_lower :: "pandas \<Rightarrow> cell \<Rightarrow> string" where
  "str_lower L c = lower (astype_str L c)"

subsection \<open>Frames\<close>

definition sheet_names :: "workbook \<Rightarrow> string list" where
  "sheet_names wb = map fst wb"

text \<open>
  \<^verbatim>\<open>pd.read_excel(file, sheet_name=name)\<close>: the sheet of that name. No \<^verbatim>\<open>dtype\<close> and no
  converter is passed, so the loader applies its type inference to every column.
\<close>

definition read_excel :: "pandas \<Rightarrow> workbook \<Rightarrow> string \<Rightarrow> error + frame" where
  "read_excel L wb name =
     (case map_of wb name of
        None \<Rightarrow> Inl (ValueError (''Worksheet named '' @ name @ '' not found''))
      | Some sh \<Rightarrow> Inr (map (\<lambda>(c, v). (c, infer_types L v)) sh))"

definition columns :: "frame \<Rightarrow> string list" where
  "columns df = map fst df"

text \<open>\<^verbatim>\<open>df[c]\<close>: the column labelled \<open>c\<close>, a \<^verbatim>\<open>KeyError\<close> when there is none.\<close>

definition getcol :: "frame \<Rightarrow> string \<Rightarrow> error + cell list" where
  "getcol df c = (case map_of df c of None \<Rightarrow> Inl (KeyError c) | Some v \<Rightarrow> Inr v)"

text \<open>\<^verbatim>\<open>len(df)\<close>: the number of rows.\<close>

definition len :: "frame \<Rightarrow> nat" where
  "len df = (case df of [] \<Rightarrow> 0 | (c, v) # _ \<Rightarrow> length v)"

text \<open>
  \<^verbatim>\<open>pd.to_datetime\<close> on a column: timestamps and empty cells stay, any other cell is parsed by
  the library, and the first cell that does not parse raises.
\<close>

definition to_datetime_cell :: "pandas \<Rightarrow> cell \<Rightarrow> error + cell" where
  "to_datetime_cell L c =
     (case c of
        Missing \<Rightarrow> Inr Missing
      | TsV t \<Rightarrow> Inr (TsV t)
      | _ \<Rightarrow> (case parse_datetime L c of
                None \<Rightarrow> Inl (DateParseError c)
              | Some None \<Rightarrow> Inr Missing
              | Some (Some t) \<Rightarrow> Inr (TsV t)))"

definition to_datetime :: "pandas \<Rightarrow> cell list \<Rightarrow> error + cell list" where
  "to_datetime L cs = sequence_err (map (to_datetime_cell L) cs)"

text \<open>
  \<^verbatim>\<open>df.columns = [c.lower().strip() for c in df.columns]\<close>, the first line of
  \<open>standardize\<close>. The labels of a sheet are taken to stay distinct under it: a sheet with two
  headers that differ only in case or outer blanks is outside the model.
\<close>

definition normalized :: "frame \<Rightarrow> frame" where
  "normalized df = map (\<lambda>(c, v). (strip (lower c), v)) df"

definition standardize :: "pandas \<Rightarrow> frame \<Rightarrow> error + frame" where
  "standardize L df0 =
     (let df = normalized df0 in
      bind_err
        (if ''date'' \<in> set (columns df)
         then bind_err (getcol df ''date'') (\<lambda>d.
              bind_err (to_datetime L d) (\<lambda>d'. Inr (AList.update ''date'' d' df)))
         else Inr df)
        (\<lambda>df.
           if ''agentmis'' \<in> set (columns df)
           then bind_err (getcol df ''agentmis'') (\<lambda>a.
                Inr (AList.update ''agentmis'' (map (\<lambda>c. StrV (astype_str L c)) a) df))
           else Inr df))"

subsection \<open>Validation and loading\<close>

definition required_sheets :: "string list" where
  "required_sheets = [''CHO'', ''CHT'', ''CHD'', ''CHE'']"

definition missing_sheets :: "pipeline \<Rightarrow> string list" where
  "missing_sheets p = filter (\<lambda>s. s \<notin> set (sheet_names (file' p))) required_sheets"

definition validate_sheets :: "pipeline \<Rightarrow> error + bool" where
  "validate_sheets p =
     (let missing = missing_sheets p in
      if missing \<noteq> []
      then Inl (ValueError (''Missing required sheets: '' @ join '', '' missing))
      else Inr True)"

definition load_one :: "pandas \<Rightarrow> pipeline \<Rightarrow> string \<Rightarrow> error + frame" where
  "load_one L p name = bind_err (read_excel L (file' p) name) (standardize L)"

definition load_sheets :: "pandas \<Rightarrow> pipeline \<Rightarrow> (error + unit) \<times> pipeline" where
  "load_sheets L p =
     (case validate_sheets p of
        Inl e \<Rightarrow> (Inl e, p)
      | Inr _ \<Rightarrow>
     (case load_one L p ''CHO'' of
        Inl e \<Rightarrow> (Inl e, p)
      | Inr f1 \<Rightarrow> let p = p\<lparr>cho := Some f1\<rparr> in
     (case load_one L p ''CHT'' of
        Inl e \<Rightarrow> (Inl e, p)
      | Inr f2 \<Rightarrow> let p = p\<lparr>cht := Some f2\<rparr> in
     (case load_one L p ''CHD'' of
        Inl e \<Rightarrow> (Inl e, p)
      | Inr f3 \<Rightarrow> let p = p\<lparr>chd := Some f3\<rparr> in
     (case load_one L p ''CHE'' of
        Inl e \<Rightarrow> (Inl e, p)
      | Inr f4 \<Rightarrow> let p = p\<lparr>che := Some f4\<rparr> in
        (Inr (), p\<lparr>stats := (stats p)
           (''cho_rows'' \<mapsto> IntV (int (len f1)),
            ''cht_rows'' \<mapsto> IntV (int (len f2)),
            ''chd_rows'' \<mapsto> IntV (int (len f3)),
            ''che_rows'' \<mapsto> IntV (int (len f4)))\<rparr>))))))"

subsection \<open>The base table\<close>

text \<open>\<^verbatim>\<open>drop_duplicates\<close> keeps the first occurrence of every row, in order.\<close>

primrec drop_duplicates_from :: "'a list \<Rightarrow> 'a list \<Rightarrow> 'a list" where
  "drop_duplicates_from seen [] = []"
| "drop_duplicates_from seen (x # xs) =
     (if x \<in> set seen then drop_duplicates_from seen xs
      else x # drop_duplicates_from (x # seen) xs)"

definition drop_duplicates :: "'a list \<Rightarrow> 'a list" where
  "drop_duplicates xs = drop_duplicates_from [] xs"

text \<open>\<^verbatim>\<open>df[['date','agentmis']]\<close>: the two key columns, row by row.\<close>

definition key_columns :: "frame \<Rightarrow> error + key list" where
  "key_columns df =
     bind_err (getcol df ''date'') (\<lambda>d.
     bind_err (getcol df ''agentmis'') (\<lambda>a. Inr (zip d a)))"

definition loaded :: "frame option \<Rightarrow> error + frame" where
  "loaded f = (case f of None \<Rightarrow> Inl (TypeError ''NoneType object'') | Some df \<Rightarrow> Inr df)"

definition concat_keys :: "pipeline \<Rightarrow> error + key list" where
  "concat_keys p =
     bind_err (bind_err (loaded (cho p)) key_columns) (\<lambda>k1.
     bind_err (bind_err (loaded (cht p)) key_columns) (\<lambda>k2.
     bind_err (bind_err (loaded (chd p)) key_columns) (\<lambda>k3.
     bind_err (bind_err (loaded (che p)) key_columns) (\<lambda>k4.
       Inr (k1 @ k2 @ k3 @ k4)))))"

text \<open>\<^verbatim>\<open>nunique\<close> counts the distinct values that are not missing.\<close>

definition nunique :: "cell list \<Rightarrow> nat" where
  "nunique cs = length (remdups (filter (\<lambda>c. c \<noteq> Missing) cs))"

text \<open>
  \<^verbatim>\<open>min\<close> and \<^verbatim>\<open>max\<close> of a date column skip the missing dates and are NaT when nothing is
  left; \<^verbatim>\<open>strftime\<close> of NaT raises.
\<close>

fun timestamps :: "cell list \<Rightarrow> int list" where
  "timestamps [] = []"
| "timestamps (TsV t # cs) = t # timestamps cs"
| "timestamps (c # cs) = timestamps cs"

definition min_date :: "cell list \<Rightarrow> cell" where
  "min_date cs = (case timestamps cs of [] \<Rightarrow> Missing | t # ts \<Rightarrow> TsV (fold min ts t))"

definition max_date :: "cell list \<Rightarrow> cell" where
  "max_date cs = (case timestamps cs of [] \<Rightarrow> Missing | t # ts \<Rightarrow> TsV (fold max ts t))"

definition strftime_ymd :: "pandas \<Rightarrow> cell \<Rightarrow> error + string" where
  "strftime_ymd L c =
     (case c of TsV t \<Rightarrow> Inr (strftime L t)
      | _ \<Rightarrow> Inl (ValueError ''NaTType does not support strftime''))"

definition date_range :: "pandas \<Rightarrow> cell list \<Rightarrow> error + string" where
  "date_range L ds =
     bind_err (strftime_ymd L (min_date ds)) (\<lambda>lo.
     bind_err (strftime_ymd L (max_date ds)) (\<lambda>hi. Inr (lo @ '' to '' @ hi)))"

definition build_base :: "pandas \<Rightarrow> pipeline \<Rightarrow> (error + unit) \<times> pipeline" where
  "build_base L p =
     (case concat_keys p of
        Inl e \<Rightarrow> (Inl e, p)
      | Inr ks \<Rightarrow>
          let b = \<lparr>tcolumns = [''date'', ''agentmis''],
                   trows = map (\<lambda>k. (k, [])) (drop_duplicates ks)\<rparr>;
              p = p\<lparr>base := Some b\<rparr>;
              p = p\<lparr>stats := (stats p)
                    (''unique_agents'' \<mapsto> IntV (int (nunique (map (snd \<circ> fst) (trows b)))))\<rparr>
          in (case date_range L (map (fst \<circ> fst) (trows b)) of
                Inl e \<Rightarrow> (Inl e, p)
              | Inr s \<Rightarrow>
                  (Inr (), p\<lparr>stats := (stats p)
                     (''date_range'' \<mapsto> StrV s,
                      ''total_records'' \<mapsto> IntV (int (length (trows b))))\<rparr>)))"

subsection \<open>Grouping and the reducers\<close>

text \<open>
  A group is handed to a reducer as a series: the values of one column in the rows of the group,
  with the dtype of the whole column. The loader makes a column \<open>Int64\<close> when every cell is an
  integer, \<open>Float64\<close> when every cell is a number or empty, and \<open>Object\<close> (text, timestamps
  or a mixture) otherwise.
\<close>

datatype dtype = Int64 | Float64 | Object

type_synonym series = "dtype \<times> cell list"

definition is_int :: "cell \<Rightarrow> bool" where
  "is_int c = (case c of IntV _ \<Rightarrow> True | _ \<Rightarrow> False)"

definition is_number :: "cell \<Rightarrow> bool" where
  "is_number c = (case c of IntV _ \<Rightarrow> True | FloatV _ \<Rightarrow> True | _ \<Rightarrow> False)"

definition dtype_of :: "cell list \<Rightarrow> dtype" where
  "dtype_of col =
     (if col \<noteq> [] \<and> list_all is_int col then Int64
      else if list_all (\<lambda>c. is_number c \<or> c = Missing) col then Float64
      else Object)"

definition is_numeric_dtype :: "series \<Rightarrow> bool" where
  "is_numeric_dtype x = (fst x = Int64 \<or> fst x = Float64)"

text \<open>
  \<^verbatim>\<open>groupby(['date','agentmis'])\<close>: one group per distinct key pair, and a pair with a missing
  component forms no group. The library orders the groups by key; the left join looks a key up,
  so the groups are listed here in order of first occurrence.
\<close>

definition group_keys :: "key list \<Rightarrow> key list" where
  "group_keys ks = drop_duplicates (filter (\<lambda>(d, a). d \<noteq> Missing \<and> a \<noteq> Missing) ks)"

definition group_of :: "key list \<Rightarrow> cell list \<Rightarrow> key \<Rightarrow> series" where
  "group_of ks col k = (dtype_of col, map snd (filter (\<lambda>(k', v). k' = k) (zip ks col)))"

definition groupby_agg ::
  "key list \<Rightarrow> (key \<Rightarrow> error + cell list) \<Rightarrow> error + (key \<times> cell list) list" where
  "groupby_agg ks f =
     sequence_err (map (\<lambda>k. bind_err (f k) (\<lambda>ms. Inr (k, ms))) (group_keys ks))"

text \<open>The reducers: \<^verbatim>\<open>count\<close>, \<^verbatim>\<open>sum\<close>, and the lambdas of the four aggregators.\<close>

definition count_true :: "(cell \<Rightarrow> bool) \<Rightarrow> series \<Rightarrow> cell" where
  "count_true P x = IntV (int (length (filter P (snd x))))"

definition count_notnull :: "series \<Rightarrow> cell" where
  "count_notnull x = count_true (\<lambda>c. c \<noteq> Missing) x"

definition count_fail :: "pandas \<Rightarrow> series \<Rightarrow> cell" where
  "count_fail L x = count_true (\<lambda>c. str_lower L c = ''fail'') x"

definition num_val :: "cell \<Rightarrow> rat" where
  "num_val c = (case c of IntV i \<Rightarrow> of_int i | FloatV f \<Rightarrow> f | _ \<Rightarrow> 0)"

definition int_val :: "cell \<Rightarrow> int" where
  "int_val c = (case c of IntV i \<Rightarrow> i | _ \<Rightarrow> 0)"

text \<open>
  \<^verbatim>\<open>sum\<close> of a numeric group skips the empty cells and keeps the dtype of the column: in an
  integer column the sum wraps around at 64 bits, in a float column the library adds with the
  machine's rounding; on any other column the library decides.
\<close>

definition wrap64 :: "int \<Rightarrow> int" where
  "wrap64 i = (i + 2 ^ 63) mod 2 ^ 64 - 2 ^ 63"

definition agg_sum :: "pandas \<Rightarrow> series \<Rightarrow> error + cell" where
  "agg_sum L x =
     (if fst x = Int64 then Inr (IntV (wrap64 (sum_list (map int_val (snd x)))))
      else if fst x = Float64
      then Inr (FloatV (float_sum L (map num_val (filter (\<lambda>c. c \<noteq> Missing) (snd x)))))
      else object_sum L (snd x))"

definition num_eq :: "cell \<Rightarrow> rat \<Rightarrow> bool" where
  "num_eq c r = (is_number c \<and> num_val c = r)"

definition csat :: "series \<Rightarrow> cell" where
  "csat x =
     (if is_numeric_dtype x then count_true (\<lambda>c. num_eq c 4 \<or> num_eq c 5) x
      else IntV 0)"

definition dsat :: "series \<Rightarrow> cell" where
  "dsat x =
     (if is_numeric_dtype x then count_true (\<lambda>c. num_eq c 1) x
      else IntV 0)"

subsection \<open>The four aggregates\<close>

definition cho_agg :: "pandas \<Rightarrow> frame \<Rightarrow> error + table" where
  "cho_agg L df =
     bind_err (key_columns df) (\<lambda>ks.
     bind_err (getcol df ''status'') (\<lambda>status.
     bind_err (groupby_agg ks (\<lambda>k.
         Inr [count_true (\<lambda>c. str_lower L c = ''no show'') (group_of ks status k),
              count_true (\<lambda>c. str_lower L c \<notin> set [''off'']) (group_of ks status k)]))
       (\<lambda>rows. Inr \<lparr>tcolumns = [''date'', ''agentmis'', ''absent'', ''scheduled''],
                     trows = rows\<rparr>)))"

definition cht_agg :: "pandas \<Rightarrow> frame \<Rightarrow> error + table" where
  "cht_agg L df =
     bind_err (key_columns df) (\<lambda>ks.
     bind_err (getcol df ''ans_vol'') (\<lambda>ans_vol.
     bind_err (getcol df ''aht'') (\<lambda>aht.
     bind_err (getcol df ''art'') (\<lambda>art.
     bind_err (groupby_agg ks (\<lambda>k.
         sequence_err [agg_sum L (group_of ks ans_vol k),
                       agg_sum L (group_of ks aht k),
                       agg_sum L (group_of ks art k)]))
       (\<lambda>rows. Inr \<lparr>tcolumns = [''date'', ''agentmis'', ''ans_vol'', ''aht_min'', ''art_min''],
                     trows = rows\<rparr>)))))"

definition chd_agg :: "pandas \<Rightarrow> frame \<Rightarrow> error + table" where
  "chd_agg L df =
     bind_err (key_columns df) (\<lambda>ks.
     bind_err (getcol df ''score'') (\<lambda>score.
     bind_err (getcol df ''sloved'') (\<lambda>sloved.
     bind_err (groupby_agg ks (\<lambda>k.
         Inr [count_notnull (group_of ks score k),
              count_true (\<lambda>c. str_lower L c = ''yes'') (group_of ks sloved k),
              count_true (\<lambda>c. str_lower L c \<noteq> ''yes'') (group_of ks sloved k),
              csat (group_of ks score k),
              dsat (group_of ks score k)]))
       (\<lambda>rows. Inr \<lparr>tcolumns = [''date'', ''agentmis'', ''surveyed_count'', ''solved_count'',
                       ''not_solved_count'', ''csat_count'', ''dsat_count''],
                     trows = rows\<rparr>))))"

definition che_agg :: "pandas \<Rightarrow> frame \<Rightarrow> error + table" where
  "che_agg L df =
     bind_err (key_columns df) (\<lambda>ks.
     bind_err (getcol df ''final'') (\<lambda>final.
     bind_err (getcol df ''rc1'') (\<lambda>rc1.
     bind_err (getcol df ''rc2'') (\<lambda>rc2.
     bind_err (getcol df ''rc'') (\<lambda>rc.
     bind_err (getcol df ''bc'') (\<lambda>bc.
     bind_err (getcol df ''cc'') (\<lambda>cc.
     bind_err (groupby_agg ks (\<lambda>k.
         Inr [count_notnull (group_of ks final k),
              count_true (\<lambda>c. str_lower L c = ''pass'') (group_of ks final k),
              count_true (\<lambda>c. str_lower L c = ''fail'') (group_of ks final k),
              count_fail L (group_of ks rc1 k),
              count_fail L (group_of ks rc2 k),
              count_fail L (group_of ks rc k),
              count_fail L (group_of ks bc k),
              count_fail L (group_of ks cc k)]))
       (\<lambda>rows. Inr \<lparr>tcolumns = [''date'', ''agentmis'', ''evaluated_count'', ''pass_eval_count'',
                       ''fail_eval_count'', ''rc1_fail'', ''rc2_fail'', ''rc_fail'', ''bc_fail'',
                       ''cc_fail''],
                     trows = rows\<rparr>))))))))"

subsection \<open>The left join and the pipeline\<close>

definition metric_cols :: "table \<Rightarrow> string list" where
  "metric_cols t = filter (\<lambda>c. c \<notin> set [''date'', ''agentmis'']) (tcolumns t)"

text \<open>
  \<^verbatim>\<open>l.merge(r, on=['date','agentmis'], how='left')\<close>: every row of \<open>l\<close> in order, once per row
  of \<open>r\<close> with the same key, and once with missing values when \<open>r\<close> has no such row. (A
  column that receives a missing value becomes a float column in the library; a count keeps its
  value, and is kept here as the integer it is.)
\<close>

definition merge_left :: "table \<Rightarrow> table \<Rightarrow> table" where
  "merge_left l r =
     \<lparr>tcolumns = tcolumns l @ metric_cols r,
      trows = concat (map (\<lambda>(k, ms).
         (case filter (\<lambda>(k', ms'). k' = k) (trows r) of
            [] \<Rightarrow> [(k, ms @ replicate (length (metric_cols r)) Missing)]
          | hits \<Rightarrow> map (\<lambda>(k', ms'). (k, ms @ ms')) hits)) (trows l))\<rparr>"

definition merge_into_base :: "pipeline \<Rightarrow> error + table \<Rightarrow> (error + unit) \<times> pipeline" where
  "merge_into_base p r =
     (case r of
        Inl e \<Rightarrow> (Inl e, p)
      | Inr agg \<Rightarrow>
          (case base p of
             None \<Rightarrow> (Inl (AttributeError ''merge''), p)
           | Some b \<Rightarrow> (Inr (), p\<lparr>base := Some (merge_left b agg)\<rparr>)))"

definition copy_of :: "frame option \<Rightarrow> error + frame" where
  "copy_of f = (case f of None \<Rightarrow> Inl (AttributeError ''copy'') | Some df \<Rightarrow> Inr df)"

definition aggregate_cho :: "pandas \<Rightarrow> pipeline \<Rightarrow> (error + unit) \<times> pipeline" where
  "aggregate_cho L p = merge_into_base p (bind_err (copy_of (cho p)) (cho_agg L))"

definition aggregate_cht :: "pandas \<Rightarrow> pipeline \<Rightarrow> (error + unit) \<times> pipeline" where
  "aggregate_cht L p = merge_into_base p (bind_err (copy_of (cht p)) (cht_agg L))"

definition aggregate_chd :: "pandas \<Rightarrow> pipeline \<Rightarrow> (error + unit) \<times> pipeline" where
  "aggregate_chd L p = merge_into_base p (bind_err (copy_of (chd p)) (chd_agg L))"

definition aggregate_che :: "pandas \<Rightarrow> pipeline \<Rightarrow> (error + unit) \<times> pipeline" where
  "aggregate_che L p = merge_into_base p (bind_err (copy_of (che p)) (che_agg L))"

text \<open>
  \<^verbatim>\<open>self.base[metric_cols] = self.base[metric_cols].fillna(0)\<close>: the cells of a row are the
  values of exactly the columns other than \<^verbatim>\<open>date\<close> and \<^verbatim>\<open>agentmis\<close>.
\<close>

definition fillna0 :: "table \<Rightarrow> table" where
  "fillna0 t =
     t\<lparr>trows := map (\<lambda>(k, ms). (k, map (\<lambda>c. if c = Missing then IntV 0 else c) ms)) (trows t)\<rparr>"

definition fill_and_return :: "pipeline \<Rightarrow> (error + table) \<times> pipeline" where
  "fill_and_return p =
     (case base p of
        None \<Rightarrow> (Inl (AttributeError ''columns''), p)
      | Some b \<Rightarrow> (Inr (fillna0 b), p\<lparr>base := Some (fillna0 b)\<rparr>))"

definition build_db :: "pandas \<Rightarrow> pipeline \<Rightarrow> (error + table) \<times> pipeline" where
  "build_db L p =
     then_do (load_sheets L p) (\<lambda>p.
     then_do (build_base L p) (\<lambda>p.
     then_do (aggregate_cho L p) (\<lambda>p.
     then_do (aggregate_cht L p) (\<lambda>p.
     then_do (aggregate_chd L p) (\<lambda>p.
     then_do (aggregate_che L p) (\<lambda>p.
       fill_and_return p))))))"

subsection \<open>Notions used in the statements\<close>

text \<open>
  What a left join with \<open>r\<close> appends to a row with key \<open>k\<close> when the keys of \<open>r\<close> are
  distinct: the cells of the one matching row, or missing values.
\<close>

definition joined :: "table \<Rightarrow> key \<Rightarrow> cell list" where
  "joined r k =
     (case map_of (trows r) k of
        None \<Rightarrow> replicate (length (metric_cols r)) Missing
      | Some ms \<Rightarrow> ms)"

text \<open>
  An aggregate of a sheet: one row per group key of the sheet, \<open>n\<close> metric columns, \<open>n\<close>
  cells in every row.
\<close>

definition agg_ok :: "frame \<Rightarrow> table \<Rightarrow> nat \<Rightarrow> bool" where
  "agg_ok df a n = (\<exists>ks. key_columns df = Inr ks \<and> map fst (trows a) = group_keys ks
      \<and> (\<forall>(k, ms) \<in> set (trows a). length ms = n) \<and> length (metric_cols a) = n)"

text \<open>
  The (date, agentmis) pairs of a sheet, as the pipeline compares them: the two key columns of
  the sheet after \<open>standardize\<close>, row by row.
\<close>

definition sheet_pairs :: "pandas \<Rightarrow> pipeline \<Rightarrow> string \<Rightarrow> key set" where
  "sheet_pairs L p name =
     (case bind_err (load_one L p name) key_columns of Inl e \<Rightarrow> {} | Inr ks \<Rightarrow> set ks)"

text \<open>
  The cell of a row of the table in a given metric column, and the metric columns that each
  sheet's aggregate contributes.
\<close>

definition cell_at :: "table \<Rightarrow> cell list \<Rightarrow> string \<Rightarrow> cell option" where
  "cell_at t ms c = map_of (zip (metric_cols t) ms) c"

definition sheet_metrics :: "string \<Rightarrow> string list" where
  "sheet_metrics s =
     (if s = ''CHO'' then [''absent'', ''scheduled'']
      else if s = ''CHT'' then [''ans_vol'', ''aht_min'', ''art_min'']
      else if s = ''CHD'' then [''surveyed_count'', ''solved_count'', ''not_solved_count'',
                               ''csat_count'', ''dsat_count'']
      else if s = ''CHE'' then [''evaluated_count'', ''pass_eval_count'', ''fail_eval_count'',
                               ''rc1_fail'', ''rc2_fail'', ''rc_fail'', ''bc_fail'', ''cc_fail'']
      else [])"

definition kpi_columns :: "string list" where
  "kpi_columns =
     [''date'', ''agentmis'', ''absent'', ''scheduled'', ''ans_vol'',
      ''aht_min'', ''art_min'', ''surveyed_count'', ''solved_count'',
      ''not_solved_count'', ''csat_count'', ''dsat_count'',
      ''evaluated_count'', ''pass_eval_count'', ''fail_eval_count'',
      ''rc1_fail'', ''rc2_fail'', ''rc_fail'', ''bc_fail'', ''cc_fail'']"

text \<open>A sheet without data rows: every column is empty.\<close>

definition no_rows :: "frame \<Rightarrow> bool" where
  "no_rows df = list_all (\<lambda>(c, v). v = []) df"

definition has_key_columns :: "frame \<Rightarrow> bool" where
  "has_key_columns df =
     (''date'' \<in> set (columns (normalized df)) \<and> ''agentmis'' \<in> set (columns (normalized df)))"

text \<open>A cell that \<^verbatim>\<open>pd.to_datetime\<close> rejects.\<close>

definition unparseable :: "pandas \<Rightarrow> cell \<Rightarrow> bool" where
  "unparseable L c = (to_datetime_cell L c = Inl (DateParseError c))"

text \<open>
  A complete KPI table for a pipeline: all twenty columns, in every row a value that is not
  missing for each of the eighteen metric columns, and a row for every (date, agentmis) pair of
  the four sheets.
\<close>

definition complete_table :: "pandas \<Rightarrow> pipeline \<Rightarrow> table \<Rightarrow> bool" where
  "complete_table L p t =
     (tcolumns t = kpi_columns
      \<and> list_all (\<lambda>(k, ms). length ms = 18 \<and> Missing \<notin> set ms) (trows t)
      \<and> fst ` set (trows t) =
          sheet_pairs L p ''CHO'' \<union> sheet_pairs L p ''CHT'' \<union> sheet_pairs L p ''CHD''
          \<union> sheet_pairs L p ''CHE'')"

text \<open>Two texts are equal up to case.\<close>

definition ci_equal :: "string \<Rightarrow> string \<Rightarrow> bool" where
  "ci_equal s t = (lower s = lower t)"

text \<open>
  A score column that holds numbers and empty cells only: the columns that the library gives a
  numeric dtype (\<^verbatim>\<open>int64\<close> or \<^verbatim>\<open>float64\<close>). One text cell makes the whole column an
  \<^verbatim>\<open>object\<close> column.
\<close>

definition numeric_column :: "cell list \<Rightarrow> bool" where
  "numeric_column col =
     list_all (\<lambda>c. case c of StrV s \<Rightarrow> False | TsV t \<Rightarrow> False | _ \<Rightarrow> True) col"

subsection \<open>A small library instance and workbooks for concrete runs\<close>

text \<open>
  Concrete runs need a library. The loader of this one does what a loader without
  \<^verbatim>\<open>dtype\<close> does to a column in which every cell is a number, empty, or text made of
  digits: it delivers the column as numbers. It reads two dates, prints an integer in decimal
  and any other number or timestamp as \<^verbatim>\<open>#\<close>, adds floats exactly, and refuses to add
  cells that are not numbers.
\<close>

definition is_digits :: "string \<Rightarrow> bool" where
  "is_digits s = (s \<noteq> [] \<and> list_all (\<lambda>c. c \<in> set ''0123456789'') s)"

definition digit_value :: "char \<Rightarrow> nat" where
  "digit_value c =
     (case map_of (zip ''0123456789'' [0, 1, 2, 3, 4, 5, 6, 7, 8, 9]) c of
        None \<Rightarrow> 0 | Some n \<Rightarrow> n)"

definition nat_of_digits :: "string \<Rightarrow> nat" where
  "nat_of_digits s = foldl (\<lambda>n c. 10 * n + digit_value c) 0 s"

fun digits_of_nat :: "nat \<Rightarrow> string" where
  "digits_of_nat n =
     (if n < 10 then [''0123456789'' ! n]
      else digits_of_nat (n div 10) @ [''0123456789'' ! (n mod 10)])"

definition numeric_or_empty :: "cell \<Rightarrow> bool" where
  "numeric_or_empty c =
     (case c of Missing \<Rightarrow> True | IntV i \<Rightarrow> True | FloatV f \<Rightarrow> True
      | StrV s \<Rightarrow> is_digits s | TsV t \<Rightarrow> False)"

definition demo_infer :: "cell list \<Rightarrow> cell list" where
  "demo_infer col =
     (if list_all numeric_or_empty col
      then map (\<lambda>c. case c of StrV s \<Rightarrow> IntV (int (nat_of_digits s)) | _ \<Rightarrow> c) col
      else col)"

definition demo_pandas :: pandas where
  "demo_pandas = \<lparr>
     infer_types = demo_infer,
     parse_datetime = (\<lambda>c. case c of
         StrV s \<Rightarrow> (if s = ''2024-01-01'' then Some (Some 0)
                    else if s = ''2024-01-02'' then Some (Some 1) else None)
       | _ \<Rightarrow> None),
     py_str = (\<lambda>c. case c of
         IntV i \<Rightarrow> (if i < 0 then ''-'' @ digits_of_nat (nat (- i)) else digits_of_nat (nat i))
       | _ \<Rightarrow> ''#''),
     strftime = (\<lambda>t. if t = 0 then ''2024-01-01'' else if t = 1 then ''2024-01-02'' else ''#''),
     float_sum = sum_list,
     object_sum = (\<lambda>cs. Inl (TypeError ''sum''))\<rparr>"

definition two_sheets :: workbook where
  "two_sheets = [(''CHO'', []), (''CHD'', [])]"

definition small_workbook :: workbook where
  "small_workbook =
    [(''CHO'', [(''Date'', [StrV ''2024-01-01'']), ('' AgentMIS '', [StrV ''A1'']),
                (''Status'', [StrV ''No Show''])]),
     (''CHT'', [(''date'', [StrV ''2024-01-01'']), (''agentmis'', [StrV ''A1'']),
                (''ans_vol'', [IntV 3]), (''aht'', [IntV 3]), (''art'', [IntV 3])]),
     (''CHD'', [(''date'', [StrV ''2024-01-02'', StrV ''2024-01-02'']),
                (''agentmis'', [StrV ''A2'', StrV ''A2'']),
                (''score'', [IntV 4, IntV 1]), (''sloved'', [StrV ''Yes'', StrV ''No''])]),
     (''CHE'', [(''date'', []), (''agentmis'', []), (''final'', []), (''rc1'', []),
                (''rc2'', []), (''rc'', []), (''bc'', []), (''cc'', [])])]"

definition small_kpi :: table where
  "small_kpi =
     \<lparr>tcolumns =
        [''date'', ''agentmis'', ''absent'', ''scheduled'', ''ans_vol'',
         ''aht_min'', ''art_min'', ''surveyed_count'', ''solved_count'',
         ''not_solved_count'', ''csat_count'', ''dsat_count'',
         ''evaluated_count'', ''pass_eval_count'', ''fail_eval_count'',
         ''rc1_fail'', ''rc2_fail'', ''rc_fail'', ''bc_fail'', ''cc_fail''],
      trows =
        [((TsV 0, StrV ''A1''),
          [IntV 1, IntV 1, IntV 3, IntV 3, IntV 3, IntV 0, IntV 0, IntV 0,
           IntV 0, IntV 0, IntV 0, IntV 0, IntV 0, IntV 0, IntV 0, IntV 0,
           IntV 0, IntV 0]),
         ((TsV 1, StrV ''A2''),
          [IntV 0, IntV 0, IntV 0, IntV 0, IntV 0, IntV 2, IntV 1, IntV 1,
           IntV 1, IntV 1, IntV 0, IntV 0, IntV 0, IntV 0, IntV 0, IntV 0,
           IntV 0, IntV 0])]\<rparr>"

definition empty_workbook :: workbook where
  "empty_workbook =
    [(''CHO'', [(''date'', []), (''agentmis'', []), (''status'', [])]),
     (''CHT'', [(''date'', []), (''agentmis'', []), (''ans_vol'', []), (''aht'', []),
                (''art'', [])]),
     (''CHD'', [(''date'', []), (''agentmis'', []), (''score'', []), (''sloved'', [])]),
     (''CHE'', [(''date'', []), (''agentmis'', []), (''final'', []), (''rc1'', []),
                (''rc2'', []), (''rc'', []), (''bc'', []), (''cc'', [])])]"

definition bad_date_workbook :: workbook where
  "bad_date_workbook =
    [(''CHO'', [(''date'', [StrV ''2024-01-01'']), (''agentmis'', [StrV ''A1'']),
                (''status'', [StrV ''Present''])]),
     (''CHT'', [(''Date'', [StrV ''2024-01-01'', StrV ''yesterday'']),
                (''agentmis'', [StrV ''A1'', StrV ''A1'']),
                (''ans_vol'', [IntV 3, IntV 4]), (''aht'', [IntV 3, IntV 4]),
                (''art'', [IntV 3, IntV 4])]),
     (''CHD'', [(''date'', []), (''agentmis'', []), (''score'', []), (''sloved'', [])]),
     (''CHE'', [(''date'', []), (''agentmis'', []), (''final'', []), (''rc1'', []),
                (''rc2'', []), (''rc'', []), (''bc'', []), (''cc'', [])])]"

text \<open>
  Two workbooks with a Satisfaction sheet of two agents. In the first the score column holds
  integers only and the rows of the two agents alternate; in the second it holds the number 4
  for the first agent and the texts \<^verbatim>\<open>5\<close> and \<^verbatim>\<open>good\<close> for the second. With each: the CHD sheet
  after \<open>standardize\<close>, the two metric rows and the KPI table.
\<close>

definition scores_workbook :: workbook where
  "scores_workbook =
    [(''CHO'', [(''date'', []), (''agentmis'', []), (''status'', [])]),
     (''CHT'', [(''date'', []), (''agentmis'', []), (''ans_vol'', []), (''aht'', []),
                (''art'', [])]),
     (''CHD'', [(''date'', [StrV ''2024-01-01'', StrV ''2024-01-02'', StrV ''2024-01-01'',
                            StrV ''2024-01-02'', StrV ''2024-01-01'']),
                (''agentmis'', [StrV ''A1'', StrV ''A2'', StrV ''A1'', StrV ''A2'', StrV ''A1'']),
                (''score'', [IntV 4, IntV 1, IntV 5, IntV 3, IntV 1]),
                (''sloved'', [StrV ''yes'', StrV ''no'', StrV ''yes'', StrV ''no'',
                              StrV ''no''])]),
     (''CHE'', [(''date'', []), (''agentmis'', []), (''final'', []), (''rc1'', []),
                (''rc2'', []), (''rc'', []), (''bc'', []), (''cc'', [])])]"

definition scores_chd :: frame where
  "scores_chd =
     [(''date'', [TsV 0, TsV 1, TsV 0, TsV 1, TsV 0]),
      (''agentmis'', [StrV ''A1'', StrV ''A2'', StrV ''A1'', StrV ''A2'', StrV ''A1'']),
      (''score'', [IntV 4, IntV 1, IntV 5, IntV 3, IntV 1]),
      (''sloved'', [StrV ''yes'', StrV ''no'', StrV ''yes'', StrV ''no'', StrV ''no''])]"

definition scores_row_A1 :: "cell list" where
  "scores_row_A1 =
     [IntV 0, IntV 0, IntV 0, IntV 0, IntV 0, IntV 3, IntV 2, IntV 1,
      IntV 2, IntV 1, IntV 0, IntV 0, IntV 0, IntV 0, IntV 0, IntV 0,
      IntV 0, IntV 0]"

definition scores_row_A2 :: "cell list" where
  "scores_row_A2 =
     [IntV 0, IntV 0, IntV 0, IntV 0, IntV 0, IntV 2, IntV 0, IntV 2,
      IntV 0, IntV 1, IntV 0, IntV 0, IntV 0, IntV 0, IntV 0, IntV 0,
      IntV 0, IntV 0]"

definition scores_kpi :: table where
  "scores_kpi = \<lparr>tcolumns = kpi_columns,
     trows = [((TsV 0, StrV ''A1''), scores_row_A1), ((TsV 1, StrV ''A2''), scores_row_A2)]\<rparr>"

definition text_scores_workbook :: workbook where
  "text_scores_workbook =
    [(''CHO'', [(''date'', []), (''agentmis'', []), (''status'', [])]),
     (''CHT'', [(''date'', []), (''agentmis'', []), (''ans_vol'', []), (''aht'', []),
                (''art'', [])]),
     (''CHD'', [(''date'', [StrV ''2024-01-01'', StrV ''2024-01-02'', StrV ''2024-01-02'']),
                (''agentmis'', [StrV ''A1'', StrV ''A2'', StrV ''A2'']),
                (''score'', [IntV 4, StrV ''5'', StrV ''good'']),
                (''sloved'', [StrV ''yes'', StrV ''no'', StrV ''yes''])]),
     (''CHE'', [(''date'', []), (''agentmis'', []), (''final'', []), (''rc1'', []),
                (''rc2'', []), (''rc'', []), (''bc'', []), (''cc'', [])])]"

definition text_scores_chd :: frame where
  "text_scores_chd =
     [(''date'', [TsV 0, TsV 1, TsV 1]),
      (''agentmis'', [StrV ''A1'', StrV ''A2'', StrV ''A2'']),
      (''score'', [IntV 4, StrV ''5'', StrV ''good'']),
      (''sloved'', [StrV ''yes'', StrV ''no'', StrV ''yes''])]"

definition text_scores_row_A1 :: "cell list" where
  "text_scores_row_A1 =
     [IntV 0, IntV 0, IntV 0, IntV 0, IntV 0, IntV 1, IntV 1, IntV 0,
      IntV 0, IntV 0, IntV 0, IntV 0, IntV 0, IntV 0, IntV 0, IntV 0,
      IntV 0, IntV 0]"

definition text_scores_row_A2 :: "cell list" where
  "text_scores_row_A2 =
     [IntV 0, IntV 0, IntV 0, IntV 0, IntV 0, IntV 2, IntV 1, IntV 1,
      IntV 0, IntV 0, IntV 0, IntV 0, IntV 0, IntV 0, IntV 0, IntV 0,
      IntV 0, IntV 0]"

definition text_scores_kpi :: table where
  "text_scores_kpi = \<lparr>tcolumns = kpi_columns,
     trows = [((TsV 0, StrV ''A1''), text_scores_row_A1),
              ((TsV 1, StrV ''A2''), text_scores_row_A2)]\<rparr>"

definition attendance_workbook :: workbook where
  "attendance_workbook =
    [(''CHO'', [(''date'', [StrV ''2024-01-01'', StrV ''2024-01-01'', StrV ''2024-01-01'']),
                (''agentmis'', [StrV ''A1'', StrV ''A1'', StrV ''A1'']),
                (''status'', [Missing, StrV ''Off'', StrV ''No Show''])]),
     (''CHT'', [(''date'', []), (''agentmis'', []), (''ans_vol'', []), (''aht'', []),
                (''art'', [])]),
     (''CHD'', [(''date'', []), (''agentmis'', []), (''score'', []), (''sloved'', [])]),
     (''CHE'', [(''date'', []), (''agentmis'', []), (''final'', []), (''rc1'', []),
                (''rc2'', []), (''rc'', []), (''bc'', []), (''cc'', [])])]"

definition attendance_cho :: frame where
  "attendance_cho =
     [(''date'', [TsV 0, TsV 0, TsV 0]),
      (''agentmis'', [StrV ''A1'', StrV ''A1'', StrV ''A1'']),
      (''status'', [Missing, StrV ''Off'', StrV ''No Show''])]"

definition attendance_keys :: "key list" where
  "attendance_keys = [(TsV 0, StrV ''A1''), (TsV 0, StrV ''A1''), (TsV 0, StrV ''A1'')]"

definition attendance_row :: "cell list" where
  "attendance_row =
     [IntV 1, IntV 2, IntV 0, IntV 0, IntV 0, IntV 0, IntV 0, IntV 0,
      IntV 0, IntV 0, IntV 0, IntV 0, IntV 0, IntV 0, IntV 0, IntV 0,
      IntV 0, IntV 0]"

definition attendance_kpi :: table where
  "attendance_kpi = \<lparr>tcolumns = kpi_columns, trows = [((TsV 0, StrV ''A1''), attendance_row)]\<rparr>"

definition survey_workbook :: workbook where
  "survey_workbook =
    [(''CHO'', [(''date'', []), (''agentmis'', []), (''status'', [])]),
     (''CHT'', [(''date'', []), (''agentmis'', []), (''ans_vol'', []), (''aht'', []),
                (''art'', [])]),
     (''CHD'', [(''date'', [StrV ''2024-01-02'', StrV ''2024-01-02'', StrV ''2024-01-02'']),
                (''agentmis'', [StrV ''A2'', StrV ''A2'', StrV ''A2'']),
                (''score'', [IntV 5, StrV ''good'', Missing]),
                (''sloved'', [StrV ''YES'', StrV ''no'', Missing])]),
     (''CHE'', [(''date'', []), (''agentmis'', []), (''final'', []), (''rc1'', []),
                (''rc2'', []), (''rc'', []), (''bc'', []), (''cc'', [])])]"

definition survey_chd :: frame where
  "survey_chd =
     [(''date'', [TsV 1, TsV 1, TsV 1]),
      (''agentmis'', [StrV ''A2'', StrV ''A2'', StrV ''A2'']),
      (''score'', [IntV 5, StrV ''good'', Missing]),
      (''sloved'', [StrV ''YES'', StrV ''no'', Missing])]"

definition survey_keys :: "key list" where
  "survey_keys = [(TsV 1, StrV ''A2''), (TsV 1, StrV ''A2''), (TsV 1, StrV ''A2'')]"

definition survey_row :: "cell list" where
  "survey_row =
     [IntV 0, IntV 0, IntV 0, IntV 0, IntV 0, IntV 2, IntV 1, IntV 2,
      IntV 0, IntV 0, IntV 0, IntV 0, IntV 0, IntV 0, IntV 0, IntV 0,
      IntV 0, IntV 0]"

definition survey_kpi :: table where
  "survey_kpi = \<lparr>tcolumns = kpi_columns, trows = [((TsV 1, StrV ''A2''), survey_row)]\<rparr>"

text \<open>Two workbooks that differ only in how often the same off-day row occurs in CHO.\<close>

definition off_once :: workbook where
  "off_once =
    [(''CHO'', [(''date'', [StrV ''2024-01-01'']), (''agentmis'', [StrV ''A1'']),
                (''status'', [StrV ''Off''])]),
     (''CHT'', [(''date'', []), (''agentmis'', []), (''ans_vol'', []), (''aht'', []),
                (''art'', [])]),
     (''CHD'', [(''date'', []), (''agentmis'', []), (''score'', []), (''sloved'', [])]),
     (''CHE'', [(''date'', []), (''agentmis'', []), (''final'', []), (''rc1'', []),
                (''rc2'', []), (''rc'', []), (''bc'', []), (''cc'', [])])]"

definition off_twice :: workbook where
  "off_twice =
    [(''CHO'', [(''date'', [StrV ''2024-01-01'', StrV ''2024-01-01'']),
                (''agentmis'', [StrV ''A1'', StrV ''A1'']),
                (''status'', [StrV ''Off'', StrV ''Off''])]),
     (''CHT'', [(''date'', []), (''agentmis'', []), (''ans_vol'', []), (''aht'', []),
                (''art'', [])]),
     (''CHD'', [(''date'', []), (''agentmis'', []), (''score'', []), (''sloved'', [])]),
     (''CHE'', [(''date'', []), (''agentmis'', []), (''final'', []), (''rc1'', []),
                (''rc2'', []), (''rc'', []), (''bc'', []), (''cc'', [])])]"

definition off_kpi :: table where
  "off_kpi = \<lparr>tcolumns = kpi_columns,
     trows = [((TsV 0, StrV ''A1''), replicate 18 (IntV 0))]\<rparr>"

text \<open>
  Two workbooks with zero-padded agent identifiers stored as text: in the first the identifier
  column also holds an identifier that is not a number, in the second it does not.
\<close>

definition mixed_ids_workbook :: workbook where
  "mixed_ids_workbook =
    [(''CHO'', [(''date'', [StrV ''2024-01-01'', StrV ''2024-01-01'']),
                (''agentmis'', [StrV ''007'', StrV ''A1'']),
                (''status'', [StrV ''Present'', StrV ''Off''])]),
     (''CHT'', [(''date'', []), (''agentmis'', []), (''ans_vol'', []), (''aht'', []),
                (''art'', [])]),
     (''CHD'', [(''date'', []), (''agentmis'', []), (''score'', []), (''sloved'', [])]),
     (''CHE'', [(''date'', []), (''agentmis'', []), (''final'', []), (''rc1'', []),
                (''rc2'', []), (''rc'', []), (''bc'', []), (''cc'', [])])]"

definition mixed_ids_kpi :: table where
  "mixed_ids_kpi = \<lparr>tcolumns = kpi_columns,
     trows = [((TsV 0, StrV ''007''), IntV 0 # IntV 1 # replicate 16 (IntV 0)),
              ((TsV 0, StrV ''A1''), replicate 18 (IntV 0))]\<rparr>"

definition numeric_ids_workbook :: workbook where
  "numeric_ids_workbook =
    [(''CHO'', [(''date'', [StrV ''2024-01-01'']), (''agentmis'', [StrV ''00123'']),
                (''status'', [StrV ''Present''])]),
     (''CHT'', [(''date'', []), (''agentmis'', []), (''ans_vol'', []), (''aht'', []),
                (''art'', [])]),
     (''CHD'', [(''date'', []), (''agentmis'', []), (''score'', []), (''sloved'', [])]),
     (''CHE'', [(''date'', []), (''agentmis'', []), (''final'', []), (''rc1'', []),
                (''rc2'', []), (''rc'', []), (''bc'', []), (''cc'', [])])]"

definition numeric_ids_kpi :: table where
  "numeric_ids_kpi = \<lparr>tcolumns = kpi_columns,
     trows = [((TsV 0, StrV ''123''), IntV 0 # IntV 1 # replicate 16 (IntV 0))]\<rparr>"

section \<open>Properties\<close>

subsection \<open>Validation\<close>

lemma sublist_join: "x \<in> set xs \<Longrightarrow> sublist x (join sep xs)"
proof (induction sep xs rule: join.induct)
  case (3 sep a b bs)
  show ?case
  proof (cases "x = a")
    case True
    then show ?thesis by simp
  next
    case False
    with 3 have "sublist x (join sep (b # bs))" by simp
    then obtain ps ss where "join sep (b # bs) = ps @ x @ ss" by (auto simp: sublist_def)
    then have "join sep (a # b # bs) = (a @ sep @ ps) @ x @ ss" by simp
    then show ?thesis unfolding sublist_def by blast
  qed
qed simp_all

lemma build_db_missing:
  assumes "missing_sheets p \<noteq> []"
  shows "build_db L p =
    (Inl (ValueError (''Missing required sheets: '' @ join '', '' (missing_sheets p))), p)"
  using assms by (simp add: build_db_def then_do_def load_sheets_def validate_sheets_def)

text \<open>
  C3. When at least one of CHO, CHT, CHD, CHE is not a sheet of the workbook, \<open>build_db\<close>
  raises the \<^verbatim>\<open>ValueError\<close> of \<open>validate_sheets\<close>; its message is
  \<^verbatim>\<open>Missing required sheets: \<close> followed by the missing names joined by a comma, so every
  missing name (not only the first) occurs in it; and the pipeline object is what it was before
  the call: no sheet loaded, no base table, no statistic.
\<close>

theorem missing_sheets_all_named_fail_fast:
  assumes "\<exists>s \<in> set required_sheets. s \<notin> set (sheet_names (file' p))"
  shows "\<exists>msg. build_db L p = (Inl (ValueError msg), p)
           \<and> load_sheets L p = (Inl (ValueError msg), p)
           \<and> msg = ''Missing required sheets: '' @ join '', '' (missing_sheets p)
           \<and> (\<forall>s \<in> set required_sheets. s \<notin> set (sheet_names (file' p)) \<longrightarrow>
                 s \<in> set (missing_sheets p) \<and> sublist s msg)"
proof -
  let ?msg = "''Missing required sheets: '' @ join '', '' (missing_sheets p)"
  from assms have ne: "missing_sheets p \<noteq> []"
    by (auto simp: missing_sheets_def filter_empty_conv)
  have db: "build_db L p = (Inl (ValueError ?msg), p)"
    using ne by (rule build_db_missing)
  have ld: "load_sheets L p = (Inl (ValueError ?msg), p)"
    using ne by (simp add: load_sheets_def validate_sheets_def)
  have named: "s \<in> set (missing_sheets p) \<and> sublist s ?msg"
    if "s \<in> set required_sheets" "s \<notin> set (sheet_names (file' p))" for s
  proof -
    from that have m: "s \<in> set (missing_sheets p)" by (simp add: missing_sheets_def)
    then have "sublist s (join '', '' (missing_sheets p))" by (rule sublist_join)
    then obtain ps ss where "join '', '' (missing_sheets p) = ps @ s @ ss"
      by (auto simp: sublist_def)
    then have "?msg = (''Missing required sheets: '' @ ps) @ s @ ss" by simp
    then have "sublist s ?msg" unfolding sublist_def by blast
    with m show ?thesis by simp
  qed
  from db ld named show ?thesis by blast
qed

theorem missing_sheets_all_named_fail_fast_witness:
  "(\<exists>s \<in> set required_sheets. s \<notin> set (sheet_names (file' (Pipeline two_sheets))))
   \<and> build_db demo_pandas (Pipeline two_sheets) =
       (Inl (ValueError ''Missing required sheets: CHT, CHE''), Pipeline two_sheets)"
proof -
  have h: "\<exists>s \<in> set required_sheets. s \<notin> set (sheet_names (file' (Pipeline two_sheets)))"
    by (simp add: required_sheets_def sheet_names_def Pipeline_def two_sheets_def)
  have m: "missing_sheets (Pipeline two_sheets) = [''CHT'', ''CHE'']"
    by (simp add: missing_sheets_def required_sheets_def sheet_names_def Pipeline_def
        two_sheets_def)
  from missing_sheets_all_named_fail_fast [OF h, of demo_pandas] m h show ?thesis
    by auto
qed

subsection \<open>Lists, grouping and the join\<close>

lemma set_drop_duplicates_from: "set (drop_duplicates_from seen xs) = set xs - set seen"
  by (induction xs arbitrary: seen) auto

lemma distinct_drop_duplicates_from: "distinct (drop_duplicates_from seen xs)"
  by (induction xs arbitrary: seen) (auto simp: set_drop_duplicates_from)

lemma set_drop_duplicates: "set (drop_duplicates xs) = set xs"
  by (simp add: drop_duplicates_def set_drop_duplicates_from)

lemma distinct_drop_duplicates: "distinct (drop_duplicates xs)"
  by (simp add: drop_duplicates_def distinct_drop_duplicates_from)

lemma sequence_err_Inr: "sequence_err rs = Inr vs \<Longrightarrow> rs = map Inr vs"
  by (induction rs arbitrary: vs) (auto split: sum.splits)

lemma sequence_err_Inl: "sequence_err rs = Inl e \<Longrightarrow> Inl e \<in> set rs"
  by (induction rs) (auto split: sum.splits)

lemma sequence_err_keyed:
  "sequence_err (map (\<lambda>k. bind_err (f k) (\<lambda>ms. Inr (k, ms))) ks) = Inr rows
   \<Longrightarrow> map fst rows = ks \<and> (\<forall>(k, ms) \<in> set rows. f k = Inr ms)"
proof (induction ks arbitrary: rows)
  case Nil
  then show ?case by simp
next
  case (Cons k ks)
  from Cons.prems obtain ms rest where
    h: "f k = Inr ms" "sequence_err (map (\<lambda>k. bind_err (f k) (\<lambda>ms. Inr (k, ms))) ks) = Inr rest"
       "rows = (k, ms) # rest"
    by (auto simp: bind_err_def split: sum.splits)
  from Cons.IH[OF h(2)] h(1) h(3) show ?case by simp
qed

lemma groupby_agg_rows:
  assumes "groupby_agg ks f = Inr rows"
  shows "map fst rows = group_keys ks" and "\<And>k ms. (k, ms) \<in> set rows \<Longrightarrow> f k = Inr ms"
  using sequence_err_keyed[OF assms[unfolded groupby_agg_def]] by auto

lemma filter_key_distinct:
  assumes "distinct (map fst rs)"
  shows "filter (\<lambda>(k', ms'). k' = k) rs = (case map_of rs k of None \<Rightarrow> [] | Some ms \<Rightarrow> [(k, ms)])"
  using assms
proof (induction rs)
  case Nil
  then show ?case by simp
next
  case (Cons r rs)
  obtain k0 m0 where r: "r = (k0, m0)" by (cases r)
  show ?case
  proof (cases "k0 = k")
    case True
    with Cons.prems r have "k \<notin> fst ` set rs" by auto
    then have "map_of rs k = None" by (simp add: map_of_eq_None_iff)
    with Cons True r show ?thesis by simp
  next
    case False
    with Cons r show ?thesis by simp
  qed
qed

lemma merge_left_distinct:
  assumes "distinct (map fst (trows r))"
  shows "trows (merge_left l r) = map (\<lambda>(k, ms). (k, ms @ joined r k)) (trows l)"
proof -
  have "(case filter (\<lambda>(k', ms'). k' = k) (trows r) of
            [] \<Rightarrow> [(k, ms @ replicate (length (metric_cols r)) Missing)]
          | hits \<Rightarrow> map (\<lambda>(k', ms'). (k, ms @ ms')) hits) = [(k, ms @ joined r k)]" for k ms
    by (simp add: filter_key_distinct[OF assms] joined_def split: option.splits)
  then show ?thesis
    by (simp add: merge_left_def case_prod_unfold)
qed

lemma load_one_upd [simp]:
  "load_one L (p\<lparr>cho := a\<rparr>) n = load_one L p n"
  "load_one L (p\<lparr>cht := b\<rparr>) n = load_one L p n"
  "load_one L (p\<lparr>chd := c\<rparr>) n = load_one L p n"
  by (simp_all add: load_one_def)

lemma load_sheets_Inr:
  assumes "load_sheets L p = (Inr u, p1)"
  shows "\<exists>f1 f2 f3 f4. load_one L p ''CHO'' = Inr f1 \<and> load_one L p ''CHT'' = Inr f2
      \<and> load_one L p ''CHD'' = Inr f3 \<and> load_one L p ''CHE'' = Inr f4
      \<and> missing_sheets p = []
      \<and> p1 = p\<lparr>cho := Some f1, cht := Some f2, chd := Some f3, che := Some f4,
           stats := (stats p)
           (''cho_rows'' \<mapsto> IntV (int (len f1)),
            ''cht_rows'' \<mapsto> IntV (int (len f2)),
            ''chd_rows'' \<mapsto> IntV (int (len f3)),
            ''che_rows'' \<mapsto> IntV (int (len f4)))\<rparr>"
proof -
  have v: "validate_sheets p = Inr True"
    using assms by (cases "validate_sheets p") (auto simp: load_sheets_def validate_sheets_def Let_def split: if_splits)
  then have m: "missing_sheets p = []"
    by (auto simp: validate_sheets_def Let_def split: if_splits)
  obtain f1 where f1: "load_one L p ''CHO'' = Inr f1"
    using assms v by (cases "load_one L p ''CHO''") (simp_all add: load_sheets_def)
  obtain f2 where f2: "load_one L p ''CHT'' = Inr f2"
    using assms v f1 by (cases "load_one L p ''CHT''") (simp_all add: load_sheets_def)
  obtain f3 where f3: "load_one L p ''CHD'' = Inr f3"
    using assms v f1 f2 by (cases "load_one L p ''CHD''") (simp_all add: load_sheets_def)
  obtain f4 where f4: "load_one L p ''CHE'' = Inr f4"
    using assms v f1 f2 f3 by (cases "load_one L p ''CHE''") (simp_all add: load_sheets_def)
  from assms v f1 f2 f3 f4 have "p1 = p\<lparr>cho := Some f1, cht := Some f2, chd := Some f3, che := Some f4,
           stats := (stats p)
           (''cho_rows'' \<mapsto> IntV (int (len f1)),
            ''cht_rows'' \<mapsto> IntV (int (len f2)),
            ''chd_rows'' \<mapsto> IntV (int (len f3)),
            ''che_rows'' \<mapsto> IntV (int (len f4)))\<rparr>"
    by (simp add: load_sheets_def)
  with f1 f2 f3 f4 m show ?thesis by blast
qed

lemma build_base_Inr:
  assumes "build_base L p = (Inr u, p2)"
  shows "\<exists>ks s. concat_keys p = Inr ks
      \<and> date_range L (map fst (drop_duplicates ks)) = Inr s
      \<and> p2 = p\<lparr>base := Some \<lparr>tcolumns = [''date'', ''agentmis''],
                   trows = map (\<lambda>k. (k, [])) (drop_duplicates ks)\<rparr>,
           stats := (stats p)
             (''unique_agents'' \<mapsto> IntV (int (nunique (map snd (drop_duplicates ks)))),
              ''date_range'' \<mapsto> StrV s,
              ''total_records'' \<mapsto> IntV (int (length (drop_duplicates ks))))\<rparr>"
  using assms
  by (auto simp: build_base_def Let_def comp_def split: sum.splits)

lemma merge_into_base_Inr:
  assumes "merge_into_base p r = (Inr u, p')"
  shows "\<exists>agg b. r = Inr agg \<and> base p = Some b \<and> p' = p\<lparr>base := Some (merge_left b agg)\<rparr>"
  using assms by (auto simp: merge_into_base_def split: sum.splits option.splits)

lemma bind_copy_Inr:
  "bind_err (copy_of f) g = Inr agg \<Longrightarrow> \<exists>df. f = Some df \<and> g df = Inr agg"
  by (auto simp: bind_err_def copy_of_def split: option.splits sum.splits)

lemma then_do_Inr:
  "then_do r f = (Inr v, p') \<Longrightarrow> \<exists>u p1. r = (Inr u, p1) \<and> f p1 = (Inr v, p')"
  by (auto simp: then_do_def split: prod.splits sum.splits)

subsection \<open>What a successful run went through\<close>

lemma concat_keys_Inr:
  assumes "concat_keys p = Inr ks"
  shows "\<exists>f1 f2 f3 f4 k1 k2 k3 k4. cho p = Some f1 \<and> cht p = Some f2 \<and> chd p = Some f3
     \<and> che p = Some f4 \<and> key_columns f1 = Inr k1 \<and> key_columns f2 = Inr k2
     \<and> key_columns f3 = Inr k3 \<and> key_columns f4 = Inr k4 \<and> ks = k1 @ k2 @ k3 @ k4"
proof -
  have one: "\<exists>df k. f = Some df \<and> key_columns df = Inr k \<and> g k = Inr r"
    if "bind_err (bind_err (loaded f) key_columns) g = Inr r" for f g and r :: "key list"
    using that by (auto simp: bind_err_def loaded_def split: sum.splits option.splits)
  from assms obtain f1 k1 where a: "cho p = Some f1" "key_columns f1 = Inr k1"
    and r1: "bind_err (bind_err (loaded (cht p)) key_columns) (\<lambda>k2.
     bind_err (bind_err (loaded (chd p)) key_columns) (\<lambda>k3.
     bind_err (bind_err (loaded (che p)) key_columns) (\<lambda>k4.
       Inr (k1 @ k2 @ k3 @ k4)))) = Inr ks"
    unfolding concat_keys_def by (blast dest: one)
  from r1 obtain f2 k2 where b: "cht p = Some f2" "key_columns f2 = Inr k2"
    and r2: "bind_err (bind_err (loaded (chd p)) key_columns) (\<lambda>k3.
     bind_err (bind_err (loaded (che p)) key_columns) (\<lambda>k4.
       Inr (k1 @ k2 @ k3 @ k4))) = Inr ks"
    by (blast dest: one)
  from r2 obtain f3 k3 where c: "chd p = Some f3" "key_columns f3 = Inr k3"
    and r3: "bind_err (bind_err (loaded (che p)) key_columns) (\<lambda>k4.
       Inr (k1 @ k2 @ k3 @ k4)) = Inr ks"
    by (blast dest: one)
  from r3 obtain f4 k4 where d: "che p = Some f4" "key_columns f4 = Inr k4"
    and r4: "Inr (k1 @ k2 @ k3 @ k4) = (Inr ks :: error + key list)"
    by (blast dest: one)
  from a b c d r4 show ?thesis by simp
qed

lemma aggregate_Inr:
  assumes "merge_into_base p (bind_err (copy_of f) g) = (Inr u, p')"
  shows "\<exists>df agg b. f = Some df \<and> g df = Inr agg \<and> base p = Some b
     \<and> p' = p\<lparr>base := Some (merge_left b agg)\<rparr>"
  using merge_into_base_Inr[OF assms] bind_copy_Inr by metis

lemma fill_and_return_Inr:
  assumes "fill_and_return p = (Inr t, p')"
  shows "\<exists>b. base p = Some b \<and> t = fillna0 b \<and> p' = p\<lparr>base := Some t\<rparr>"
  using assms by (auto simp: fill_and_return_def split: option.splits)


lemma build_db_Inr:
  assumes "build_db L p = (Inr t, p')"
  obtains f1 f2 f3 f4 k1 k2 k3 k4 a1 a2 a3 a4 s where
    "missing_sheets p = []"
    "load_one L p ''CHO'' = Inr f1" "load_one L p ''CHT'' = Inr f2"
    "load_one L p ''CHD'' = Inr f3" "load_one L p ''CHE'' = Inr f4"
    "key_columns f1 = Inr k1" "key_columns f2 = Inr k2"
    "key_columns f3 = Inr k3" "key_columns f4 = Inr k4"
    "cho_agg L f1 = Inr a1" "cht_agg L f2 = Inr a2" "chd_agg L f3 = Inr a3" "che_agg L f4 = Inr a4"
    "date_range L (map fst (drop_duplicates (k1 @ k2 @ k3 @ k4))) = Inr s"
    "t = fillna0 (merge_left (merge_left (merge_left (merge_left
           \<lparr>tcolumns = [''date'', ''agentmis''],
            trows = map (\<lambda>k. (k, [])) (drop_duplicates (k1 @ k2 @ k3 @ k4))\<rparr> a1) a2) a3) a4)"
    "p' = p\<lparr>cho := Some f1, cht := Some f2, chd := Some f3, che := Some f4, base := Some t,
        stats := (stats p)
           (''cho_rows'' \<mapsto> IntV (int (len f1)),
            ''cht_rows'' \<mapsto> IntV (int (len f2)),
            ''chd_rows'' \<mapsto> IntV (int (len f3)),
            ''che_rows'' \<mapsto> IntV (int (len f4)),
            ''unique_agents'' \<mapsto> IntV (int (nunique (map snd (drop_duplicates (k1 @ k2 @ k3 @ k4))))),
            ''date_range'' \<mapsto> StrV s,
            ''total_records'' \<mapsto> IntV (int (length (drop_duplicates (k1 @ k2 @ k3 @ k4)))))\<rparr>"
proof -
  from assms obtain u1 p1 where s1: "load_sheets L p = (Inr u1, p1)"
    and r1: "then_do (build_base L p1) (\<lambda>p.
     then_do (aggregate_cho L p) (\<lambda>p.
     then_do (aggregate_cht L p) (\<lambda>p.
     then_do (aggregate_chd L p) (\<lambda>p.
     then_do (aggregate_che L p) (\<lambda>p.
       fill_and_return p))))) = (Inr t, p')"
    unfolding build_db_def by (blast dest: then_do_Inr)
  from r1 obtain u2 p2 where s2: "build_base L p1 = (Inr u2, p2)"
    and r2: "then_do (aggregate_cho L p2) (\<lambda>p.
     then_do (aggregate_cht L p) (\<lambda>p.
     then_do (aggregate_chd L p) (\<lambda>p.
     then_do (aggregate_che L p) (\<lambda>p.
       fill_and_return p)))) = (Inr t, p')"
    by (blast dest: then_do_Inr)
  from r2 obtain u3 p3 where s3: "aggregate_cho L p2 = (Inr u3, p3)"
    and r3: "then_do (aggregate_cht L p3) (\<lambda>p.
     then_do (aggregate_chd L p) (\<lambda>p.
     then_do (aggregate_che L p) (\<lambda>p.
       fill_and_return p))) = (Inr t, p')"
    by (blast dest: then_do_Inr)
  from r3 obtain u4 p4 where s4: "aggregate_cht L p3 = (Inr u4, p4)"
    and r4: "then_do (aggregate_chd L p4) (\<lambda>p.
     then_do (aggregate_che L p) (\<lambda>p.
       fill_and_return p)) = (Inr t, p')"
    by (blast dest: then_do_Inr)
  from r4 obtain u5 p5 where s5: "aggregate_chd L p4 = (Inr u5, p5)"
    and r5: "then_do (aggregate_che L p5) (\<lambda>p. fill_and_return p) = (Inr t, p')"
    by (blast dest: then_do_Inr)
  from r5 obtain u6 p6 where s6: "aggregate_che L p5 = (Inr u6, p6)"
    and s7: "fill_and_return p6 = (Inr t, p')"
    by (blast dest: then_do_Inr)
  from load_sheets_Inr[OF s1] obtain f1 f2 f3 f4 where
    ld: "load_one L p ''CHO'' = Inr f1" "load_one L p ''CHT'' = Inr f2"
        "load_one L p ''CHD'' = Inr f3" "load_one L p ''CHE'' = Inr f4"
    and ms: "missing_sheets p = []"
    and p1: "p1 = p\<lparr>cho := Some f1, cht := Some f2, chd := Some f3, che := Some f4,
           stats := (stats p)
           (''cho_rows'' \<mapsto> IntV (int (len f1)),
            ''cht_rows'' \<mapsto> IntV (int (len f2)),
            ''chd_rows'' \<mapsto> IntV (int (len f3)),
            ''che_rows'' \<mapsto> IntV (int (len f4)))\<rparr>"
    by blast
  from build_base_Inr[OF s2] obtain ks s where
    ck: "concat_keys p1 = Inr ks" and dr: "date_range L (map fst (drop_duplicates ks)) = Inr s"
    and p2: "p2 = p1\<lparr>base := Some \<lparr>tcolumns = [''date'', ''agentmis''],
                   trows = map (\<lambda>k. (k, [])) (drop_duplicates ks)\<rparr>,
           stats := (stats p1)
             (''unique_agents'' \<mapsto> IntV (int (nunique (map snd (drop_duplicates ks)))),
              ''date_range'' \<mapsto> StrV s,
              ''total_records'' \<mapsto> IntV (int (length (drop_duplicates ks))))\<rparr>"
    by blast
  from concat_keys_Inr[OF ck] p1 obtain k1 k2 k3 k4 where
    kc: "key_columns f1 = Inr k1" "key_columns f2 = Inr k2"
        "key_columns f3 = Inr k3" "key_columns f4 = Inr k4"
    and ks: "ks = k1 @ k2 @ k3 @ k4"
    by auto
  from aggregate_Inr[OF s3[unfolded aggregate_cho_def]] p1 p2 obtain a1 where
    a1: "cho_agg L f1 = Inr a1"
    and p3: "p3 = p2\<lparr>base := Some (merge_left \<lparr>tcolumns = [''date'', ''agentmis''],
                   trows = map (\<lambda>k. (k, [])) (drop_duplicates ks)\<rparr> a1)\<rparr>"
    by auto
  from aggregate_Inr[OF s4[unfolded aggregate_cht_def]] p1 p2 p3 obtain a2 where
    a2: "cht_agg L f2 = Inr a2"
    and p4: "p4 = p3\<lparr>base := Some (merge_left (merge_left \<lparr>tcolumns = [''date'', ''agentmis''],
                   trows = map (\<lambda>k. (k, [])) (drop_duplicates ks)\<rparr> a1) a2)\<rparr>"
    by auto
  from aggregate_Inr[OF s5[unfolded aggregate_chd_def]] p1 p2 p3 p4 obtain a3 where
    a3: "chd_agg L f3 = Inr a3"
    and p5: "p5 = p4\<lparr>base := Some (merge_left (merge_left (merge_left \<lparr>tcolumns = [''date'', ''agentmis''],
                   trows = map (\<lambda>k. (k, [])) (drop_duplicates ks)\<rparr> a1) a2) a3)\<rparr>"
    by auto
  from aggregate_Inr[OF s6[unfolded aggregate_che_def]] p1 p2 p3 p4 p5 obtain a4 where
    a4: "che_agg L f4 = Inr a4"
    and p6: "p6 = p5\<lparr>base := Some (merge_left (merge_left (merge_left (merge_left \<lparr>tcolumns = [''date'', ''agentmis''],
                   trows = map (\<lambda>k. (k, [])) (drop_duplicates ks)\<rparr> a1) a2) a3) a4)\<rparr>"
    by auto
  from fill_and_return_Inr[OF s7] p6 have
    t: "t = fillna0 (merge_left (merge_left (merge_left (merge_left \<lparr>tcolumns = [''date'', ''agentmis''],
                   trows = map (\<lambda>k. (k, [])) (drop_duplicates ks)\<rparr> a1) a2) a3) a4)"
    and p': "p' = p6\<lparr>base := Some t\<rparr>"
    by auto
  have "p' = p\<lparr>cho := Some f1, cht := Some f2, chd := Some f3, che := Some f4, base := Some t,
        stats := (stats p)
           (''cho_rows'' \<mapsto> IntV (int (len f1)),
            ''cht_rows'' \<mapsto> IntV (int (len f2)),
            ''chd_rows'' \<mapsto> IntV (int (len f3)),
            ''che_rows'' \<mapsto> IntV (int (len f4)),
            ''unique_agents'' \<mapsto> IntV (int (nunique (map snd (drop_duplicates ks)))),
            ''date_range'' \<mapsto> StrV s,
            ''total_records'' \<mapsto> IntV (int (length (drop_duplicates ks))))\<rparr>"
    unfolding p' p6 p5 p4 p3 p2 p1 by simp
  with that[OF ms ld kc a1 a2 a3 a4] dr t ks show thesis by simp
qed

subsection \<open>The aggregates and the joined rows\<close>

lemma bind_err_Inr: "bind_err r f = Inr v \<Longrightarrow> \<exists>x. r = Inr x \<and> f x = Inr v"
  by (auto simp: bind_err_def split: sum.splits)

lemma groupby_agg_keys:
  "groupby_agg ks f = Inr rows \<Longrightarrow> distinct (map fst rows)"
  by (simp add: groupby_agg_rows(1) group_keys_def distinct_drop_duplicates)

lemma sequence_err_length: "sequence_err rs = Inr vs \<Longrightarrow> length vs = length rs"
  by (drule sequence_err_Inr) simp

lemma groupby_agg_width:
  assumes "groupby_agg ks f = Inr rows" "\<And>k ms. f k = Inr ms \<Longrightarrow> length ms = n"
  shows "\<forall>(k, ms) \<in> set rows. length ms = n"
  using groupby_agg_rows(2)[OF assms(1)] assms(2) by blast

lemma cho_agg_ok: assumes "cho_agg L df = Inr a" shows "agg_ok df a 2"
proof -
  from assms obtain ks status rows where
    k: "key_columns df = Inr ks" and
    g: "groupby_agg ks (\<lambda>k.
         Inr [count_true (\<lambda>c. str_lower L c = ''no show'') (group_of ks status k),
              count_true (\<lambda>c. str_lower L c \<notin> set [''off'']) (group_of ks status k)]) = Inr rows"
    and a: "a = \<lparr>tcolumns = [''date'', ''agentmis'', ''absent'', ''scheduled''], trows = rows\<rparr>"
    unfolding cho_agg_def by (auto dest!: bind_err_Inr)
  have "map fst rows = group_keys ks"
    by (rule groupby_agg_rows(1)[OF g])
  moreover have "\<forall>(k, ms) \<in> set rows. length ms = 2"
    by (rule groupby_agg_width[OF g]) auto
  ultimately show ?thesis using k a by (auto simp: agg_ok_def metric_cols_def)
qed

lemma cht_agg_ok: assumes "cht_agg L df = Inr a" shows "agg_ok df a 3"
proof -
  from assms obtain ks ans_vol aht art rows where
    k: "key_columns df = Inr ks" and
    g: "groupby_agg ks (\<lambda>k.
         sequence_err [agg_sum L (group_of ks ans_vol k),
                       agg_sum L (group_of ks aht k),
                       agg_sum L (group_of ks art k)]) = Inr rows"
    and a: "a = \<lparr>tcolumns = [''date'', ''agentmis'', ''ans_vol'', ''aht_min'', ''art_min''], trows = rows\<rparr>"
    unfolding cht_agg_def by (auto dest!: bind_err_Inr)
  have "map fst rows = group_keys ks"
    by (rule groupby_agg_rows(1)[OF g])
  moreover have "\<forall>(k, ms) \<in> set rows. length ms = 3"
    by (rule groupby_agg_width[OF g]) (drule sequence_err_length, simp)
  ultimately show ?thesis using k a by (auto simp: agg_ok_def metric_cols_def)
qed

lemma chd_agg_ok: assumes "chd_agg L df = Inr a" shows "agg_ok df a 5"
proof -
  from assms obtain ks score sloved rows where
    k: "key_columns df = Inr ks" and
    g: "groupby_agg ks (\<lambda>k.
         Inr [count_notnull (group_of ks score k),
              count_true (\<lambda>c. str_lower L c = ''yes'') (group_of ks sloved k),
              count_true (\<lambda>c. str_lower L c \<noteq> ''yes'') (group_of ks sloved k),
              csat (group_of ks score k),
              dsat (group_of ks score k)]) = Inr rows"
    and a: "a = \<lparr>tcolumns = [''date'', ''agentmis'', ''surveyed_count'', ''solved_count'',
                       ''not_solved_count'', ''csat_count'', ''dsat_count''], trows = rows\<rparr>"
    unfolding chd_agg_def by (auto dest!: bind_err_Inr)
  have "map fst rows = group_keys ks"
    by (rule groupby_agg_rows(1)[OF g])
  moreover have "\<forall>(k, ms) \<in> set rows. length ms = 5"
    by (rule groupby_agg_width[OF g]) auto
  ultimately show ?thesis using k a by (auto simp: agg_ok_def metric_cols_def)
qed

lemma che_agg_ok: assumes "che_agg L df = Inr a" shows "agg_ok df a 8"
proof -
  from assms obtain ks final rc1 rc2 rc bc cc rows where
    k: "key_columns df = Inr ks" and
    g: "groupby_agg ks (\<lambda>k.
         Inr [count_notnull (group_of ks final k),
              count_true (\<lambda>c. str_lower L c = ''pass'') (group_of ks final k),
              count_true (\<lambda>c. str_lower L c = ''fail'') (group_of ks final k),
              count_fail L (group_of ks rc1 k),
              count_fail L (group_of ks rc2 k),
              count_fail L (group_of ks rc k),
              count_fail L (group_of ks bc k),
              count_fail L (group_of ks cc k)]) = Inr rows"
    and a: "a = \<lparr>tcolumns = [''date'', ''agentmis'', ''evaluated_count'', ''pass_eval_count'',
                       ''fail_eval_count'', ''rc1_fail'', ''rc2_fail'', ''rc_fail'', ''bc_fail'',
                       ''cc_fail''], trows = rows\<rparr>"
    unfolding che_agg_def by (auto dest!: bind_err_Inr)
  have "map fst rows = group_keys ks"
    by (rule groupby_agg_rows(1)[OF g])
  moreover have "\<forall>(k, ms) \<in> set rows. length ms = 8"
    by (rule groupby_agg_width[OF g]) auto
  ultimately show ?thesis using k a by (auto simp: agg_ok_def metric_cols_def)
qed

lemma agg_ok_distinct: "agg_ok df a n \<Longrightarrow> distinct (map fst (trows a))"
  by (auto simp: agg_ok_def group_keys_def distinct_drop_duplicates)

lemma agg_ok_joined: "agg_ok df a n \<Longrightarrow> length (joined a k) = n"
  by (auto simp: agg_ok_def joined_def split: option.splits dest!: map_of_SomeD)

lemma trows_fillna0:
  "trows (fillna0 t) = map (\<lambda>(k, ms). (k, map (\<lambda>c. if c = Missing then IntV 0 else c) ms)) (trows t)"
  by (simp add: fillna0_def)

lemma final_rows:
  assumes "distinct (map fst (trows a1))" "distinct (map fst (trows a2))"
    "distinct (map fst (trows a3))" "distinct (map fst (trows a4))"
  shows "trows (fillna0 (merge_left (merge_left (merge_left (merge_left
           \<lparr>tcolumns = cs, trows = map (\<lambda>k. (k, [])) ks\<rparr> a1) a2) a3) a4))
     = map (\<lambda>k. (k, map (\<lambda>c. if c = Missing then IntV 0 else c)
          (joined a1 k @ joined a2 k @ joined a3 k @ joined a4 k))) ks"
  by (simp add: trows_fillna0 merge_left_distinct assms comp_def)

lemma final_columns:
  "tcolumns (fillna0 (merge_left (merge_left (merge_left (merge_left
           \<lparr>tcolumns = cs, trows = rs\<rparr> a1) a2) a3) a4))
     = cs @ metric_cols a1 @ metric_cols a2 @ metric_cols a3 @ metric_cols a4"
  by (simp add: fillna0_def merge_left_def)

subsection \<open>One row per pair\<close>

lemma small_workbook_kpi:
  "fst (build_db demo_pandas (Pipeline small_workbook)) = Inr small_kpi"
  by code_simp

lemma small_workbook_run:
  "build_db demo_pandas (Pipeline small_workbook) =
     (Inr small_kpi, snd (build_db demo_pandas (Pipeline small_workbook)))"
  using small_workbook_kpi by (simp add: prod_eq_iff)

lemma sheet_pairs_loaded:
  "load_one L p name = Inr f \<Longrightarrow> key_columns f = Inr ks \<Longrightarrow> sheet_pairs L p name = set ks"
  by (simp add: sheet_pairs_def bind_err_def)

lemma final_keys:
  assumes "build_db L p = (Inr t, p')"
  obtains k1 k2 k3 k4 where
    "sheet_pairs L p ''CHO'' = set k1" "sheet_pairs L p ''CHT'' = set k2"
    "sheet_pairs L p ''CHD'' = set k3" "sheet_pairs L p ''CHE'' = set k4"
    "map fst (trows t) = drop_duplicates (k1 @ k2 @ k3 @ k4)"
proof -
  from assms obtain f1 f2 f3 f4 k1 k2 k3 k4 a1 a2 a3 a4 where
    ld: "load_one L p ''CHO'' = Inr f1" "load_one L p ''CHT'' = Inr f2"
    "load_one L p ''CHD'' = Inr f3" "load_one L p ''CHE'' = Inr f4"
    and kc: "key_columns f1 = Inr k1" "key_columns f2 = Inr k2"
    "key_columns f3 = Inr k3" "key_columns f4 = Inr k4"
    and ag: "cho_agg L f1 = Inr a1" "cht_agg L f2 = Inr a2" "chd_agg L f3 = Inr a3" "che_agg L f4 = Inr a4"
    and t: "t = fillna0 (merge_left (merge_left (merge_left (merge_left
           \<lparr>tcolumns = [''date'', ''agentmis''],
            trows = map (\<lambda>k. (k, [])) (drop_duplicates (k1 @ k2 @ k3 @ k4))\<rparr> a1) a2) a3) a4)"
    by (rule build_db_Inr)
  have d: "distinct (map fst (trows a1))" "distinct (map fst (trows a2))"
    "distinct (map fst (trows a3))" "distinct (map fst (trows a4))"
    using ag by (blast dest: cho_agg_ok cht_agg_ok chd_agg_ok che_agg_ok agg_ok_distinct)+
  have "map fst (trows t) = drop_duplicates (k1 @ k2 @ k3 @ k4)"
    unfolding t final_rows[OF d] by (simp add: comp_def)
  with that sheet_pairs_loaded[OF ld(1) kc(1)] sheet_pairs_loaded[OF ld(2) kc(2)]
    sheet_pairs_loaded[OF ld(3) kc(3)] sheet_pairs_loaded[OF ld(4) kc(4)]
  show thesis by blast
qed

text \<open>
  C1. The table returned by \<open>build_db\<close> has exactly one row per distinct (date, agentmis)
  pair of the four sheets: its keys are distinct, the set of its keys is the union of the pairs
  of CHO, CHT, CHD and CHE, and its number of rows is the cardinality of that union. (The four
  left joins keep the rows of the de-duplicated base as they are, since each aggregate has one
  row per group.)
\<close>

theorem one_row_per_pair:
  assumes "build_db L p = (Inr t, p')"
  shows "distinct (map fst (trows t))
       \<and> fst ` set (trows t) = (\<Union>s \<in> set required_sheets. sheet_pairs L p s)
       \<and> length (trows t) = card (\<Union>s \<in> set required_sheets. sheet_pairs L p s)"
proof -
  from assms obtain k1 k2 k3 k4 where
    sp: "sheet_pairs L p ''CHO'' = set k1" "sheet_pairs L p ''CHT'' = set k2"
    "sheet_pairs L p ''CHD'' = set k3" "sheet_pairs L p ''CHE'' = set k4"
    and ks: "map fst (trows t) = drop_duplicates (k1 @ k2 @ k3 @ k4)"
    by (rule final_keys)
  have u: "(\<Union>s \<in> set required_sheets. sheet_pairs L p s) = set (k1 @ k2 @ k3 @ k4)"
    by (auto simp: required_sheets_def sp)
  have d: "distinct (map fst (trows t))"
    by (simp add: ks distinct_drop_duplicates)
  have s: "fst ` set (trows t) = set (k1 @ k2 @ k3 @ k4)"
    using ks set_drop_duplicates[of "k1 @ k2 @ k3 @ k4"] by (metis set_map)
  have "length (trows t) = length (map fst (trows t))" by simp
  also have "\<dots> = card (set (map fst (trows t)))" using d by (simp only: distinct_card)
  also have "\<dots> = card (set (k1 @ k2 @ k3 @ k4))" using s by simp
  finally show ?thesis using d s u by simp
qed

theorem one_row_per_pair_witness:
  "fst (build_db demo_pandas (Pipeline small_workbook)) = Inr small_kpi
   \<and> distinct (map fst (trows small_kpi))
   \<and> fst ` set (trows small_kpi) =
       (\<Union>s \<in> set required_sheets. sheet_pairs demo_pandas (Pipeline small_workbook) s)
   \<and> length (trows small_kpi) =
       card (\<Union>s \<in> set required_sheets. sheet_pairs demo_pandas (Pipeline small_workbook) s)"
  using one_row_per_pair [OF small_workbook_run] small_workbook_kpi by blast

subsection \<open>No missing metric\<close>

lemma cho_agg_columns:
  "cho_agg L df = Inr a \<Longrightarrow> metric_cols a = [''absent'', ''scheduled'']"
  unfolding cho_agg_def by (auto dest!: bind_err_Inr simp: metric_cols_def)

lemma cht_agg_columns:
  "cht_agg L df = Inr a \<Longrightarrow> metric_cols a = [''ans_vol'', ''aht_min'', ''art_min'']"
  unfolding cht_agg_def by (auto dest!: bind_err_Inr simp: metric_cols_def)

lemma chd_agg_columns:
  "chd_agg L df = Inr a \<Longrightarrow> metric_cols a = [''surveyed_count'', ''solved_count'',
     ''not_solved_count'', ''csat_count'', ''dsat_count'']"
  unfolding chd_agg_def by (auto dest!: bind_err_Inr simp: metric_cols_def)

lemma che_agg_columns:
  "che_agg L df = Inr a \<Longrightarrow> metric_cols a = [''evaluated_count'', ''pass_eval_count'',
     ''fail_eval_count'', ''rc1_fail'', ''rc2_fail'', ''rc_fail'', ''bc_fail'', ''cc_fail'']"
  unfolding che_agg_def by (auto dest!: bind_err_Inr simp: metric_cols_def)

lemma final_table:
  assumes "build_db L p = (Inr t, p')"
  obtains f1 f2 f3 f4 k1 k2 k3 k4 a1 a2 a3 a4 where
    "load_one L p ''CHO'' = Inr f1" "load_one L p ''CHT'' = Inr f2"
    "load_one L p ''CHD'' = Inr f3" "load_one L p ''CHE'' = Inr f4"
    "key_columns f1 = Inr k1" "key_columns f2 = Inr k2"
    "key_columns f3 = Inr k3" "key_columns f4 = Inr k4"
    "cho_agg L f1 = Inr a1" "cht_agg L f2 = Inr a2" "chd_agg L f3 = Inr a3" "che_agg L f4 = Inr a4"
    "tcolumns t = kpi_columns"
    "trows t = map (\<lambda>k. (k, map (\<lambda>c. if c = Missing then IntV 0 else c)
          (joined a1 k @ joined a2 k @ joined a3 k @ joined a4 k)))
          (drop_duplicates (k1 @ k2 @ k3 @ k4))"
proof -
  from assms obtain f1 f2 f3 f4 k1 k2 k3 k4 a1 a2 a3 a4 where
    ld: "load_one L p ''CHO'' = Inr f1" "load_one L p ''CHT'' = Inr f2"
    "load_one L p ''CHD'' = Inr f3" "load_one L p ''CHE'' = Inr f4"
    and kc: "key_columns f1 = Inr k1" "key_columns f2 = Inr k2"
    "key_columns f3 = Inr k3" "key_columns f4 = Inr k4"
    and ag: "cho_agg L f1 = Inr a1" "cht_agg L f2 = Inr a2" "chd_agg L f3 = Inr a3" "che_agg L f4 = Inr a4"
    and t: "t = fillna0 (merge_left (merge_left (merge_left (merge_left
           \<lparr>tcolumns = [''date'', ''agentmis''],
            trows = map (\<lambda>k. (k, [])) (drop_duplicates (k1 @ k2 @ k3 @ k4))\<rparr> a1) a2) a3) a4)"
    by (rule build_db_Inr)
  have d: "distinct (map fst (trows a1))" "distinct (map fst (trows a2))"
    "distinct (map fst (trows a3))" "distinct (map fst (trows a4))"
    using ag by (blast dest: cho_agg_ok cht_agg_ok chd_agg_ok che_agg_ok agg_ok_distinct)+
  have rows: "trows t = map (\<lambda>k. (k, map (\<lambda>c. if c = Missing then IntV 0 else c)
          (joined a1 k @ joined a2 k @ joined a3 k @ joined a4 k)))
          (drop_duplicates (k1 @ k2 @ k3 @ k4))"
    unfolding t by (rule final_rows[OF d])
  have cols: "tcolumns t = kpi_columns"
    unfolding t final_columns
    by (simp add: cho_agg_columns[OF ag(1)] cht_agg_columns[OF ag(2)]
        chd_agg_columns[OF ag(3)] che_agg_columns[OF ag(4)] kpi_columns_def)
  from that[OF ld kc ag cols rows] show thesis .
qed

lemma metric_cols_kpi:
  "tcolumns t = kpi_columns \<Longrightarrow> metric_cols t =
     [''absent'', ''scheduled'', ''ans_vol'',
      ''aht_min'', ''art_min'', ''surveyed_count'', ''solved_count'',
      ''not_solved_count'', ''csat_count'', ''dsat_count'',
      ''evaluated_count'', ''pass_eval_count'', ''fail_eval_count'',
      ''rc1_fail'', ''rc2_fail'', ''rc_fail'', ''bc_fail'', ''cc_fail'']"
  by (simp add: metric_cols_def kpi_columns_def)

lemma len2: "length xs = 2 \<Longrightarrow> \<exists>a b. xs = [a, b]"
  by (auto simp: numeral_eq_Suc length_Suc_conv)

lemma len3: "length xs = 3 \<Longrightarrow> \<exists>a b c. xs = [a, b, c]"
  by (auto simp: numeral_eq_Suc length_Suc_conv)

lemma len5: "length xs = 5 \<Longrightarrow> \<exists>a b c d e. xs = [a, b, c, d, e]"
  by (auto simp: numeral_eq_Suc length_Suc_conv)

lemma len8: "length xs = 8 \<Longrightarrow> \<exists>a b c d e f g h. xs = [a, b, c, d, e, f, g, h]"
  by (auto simp: numeral_eq_Suc length_Suc_conv)

lemma set_group_keys: "set (group_keys ks) \<subseteq> set ks"
  by (auto simp: group_keys_def set_drop_duplicates)

lemma joined_absent:
  assumes "agg_ok df a n" "key_columns df = Inr ks" "k \<notin> set ks"
  shows "joined a k = replicate n Missing"
proof -
  from assms(1,2) have "map fst (trows a) = group_keys ks" and n: "length (metric_cols a) = n"
    by (auto simp: agg_ok_def)
  with assms(3) set_group_keys[of ks] have "k \<notin> fst ` set (trows a)"
    by (metis set_map subsetD)
  then have "map_of (trows a) k = None" by (simp add: map_of_eq_None_iff)
  with n show ?thesis by (simp add: joined_def)
qed

lemma fill_no_missing: "Missing \<notin> set (map (\<lambda>c. if c = Missing then IntV 0 else c) xs)"
  by auto

text \<open>
  C2. In the table returned by \<open>build_db\<close> every row has a cell for every metric column and
  none of these cells is missing; and for a row whose (date, agentmis) pair does not occur in a
  sheet, each metric column of that sheet holds exactly 0.
\<close>

theorem metrics_never_missing:
  assumes "build_db L p = (Inr t, p')" and "(k, ms) \<in> set (trows t)"
  shows "length ms = length (metric_cols t) \<and> Missing \<notin> set ms
       \<and> (\<forall>s \<in> set required_sheets. k \<notin> sheet_pairs L p s \<longrightarrow>
             (\<forall>c \<in> set (sheet_metrics s). cell_at t ms c = Some (IntV 0)))"
proof -
  from assms(1) obtain f1 f2 f3 f4 k1 k2 k3 k4 a1 a2 a3 a4 where
    ld: "load_one L p ''CHO'' = Inr f1" "load_one L p ''CHT'' = Inr f2"
    "load_one L p ''CHD'' = Inr f3" "load_one L p ''CHE'' = Inr f4"
    and kc: "key_columns f1 = Inr k1" "key_columns f2 = Inr k2"
    "key_columns f3 = Inr k3" "key_columns f4 = Inr k4"
    and ag: "cho_agg L f1 = Inr a1" "cht_agg L f2 = Inr a2" "chd_agg L f3 = Inr a3" "che_agg L f4 = Inr a4"
    and cols: "tcolumns t = kpi_columns"
    and rows: "trows t = map (\<lambda>k. (k, map (\<lambda>c. if c = Missing then IntV 0 else c)
          (joined a1 k @ joined a2 k @ joined a3 k @ joined a4 k)))
          (drop_duplicates (k1 @ k2 @ k3 @ k4))"
    by (rule final_table)
  note ok = cho_agg_ok[OF ag(1)] cht_agg_ok[OF ag(2)] chd_agg_ok[OF ag(3)] che_agg_ok[OF ag(4)]
  note mc = metric_cols_kpi[OF cols]
  from assms(2) rows have ms: "ms = map (\<lambda>c. if c = Missing then IntV 0 else c)
          (joined a1 k @ joined a2 k @ joined a3 k @ joined a4 k)"
    by auto
  obtain x1 x2 where j1: "joined a1 k = [x1, x2]"
    using len2[OF agg_ok_joined[OF ok(1)]] by blast
  obtain y1 y2 y3 where j2: "joined a2 k = [y1, y2, y3]"
    using len3[OF agg_ok_joined[OF ok(2)]] by blast
  obtain z1 z2 z3 z4 z5 where j3: "joined a3 k = [z1, z2, z3, z4, z5]"
    using len5[OF agg_ok_joined[OF ok(3)]] by blast
  obtain w1 w2 w3 w4 w5 w6 w7 w8 where j4: "joined a4 k = [w1, w2, w3, w4, w5, w6, w7, w8]"
    using len8[OF agg_ok_joined[OF ok(4)]] by blast
  have len: "length ms = length (metric_cols t)"
    unfolding ms mc j1 j2 j3 j4 by simp
  have nm: "Missing \<notin> set ms"
    unfolding ms by (rule fill_no_missing)
  have z1: "\<forall>c \<in> set (sheet_metrics ''CHO''). cell_at t ms c = Some (IntV 0)"
    if "k \<notin> sheet_pairs L p ''CHO''"
  proof -
    from that have "k \<notin> set k1" by (simp add: sheet_pairs_loaded[OF ld(1) kc(1)])
    from joined_absent[OF ok(1) kc(1) this] j1 have "x1 = Missing" "x2 = Missing"
      by (simp_all add: numeral_eq_Suc)
    then show ?thesis
      unfolding ms mc j1 j2 j3 j4 cell_at_def by (simp add: sheet_metrics_def)
  qed
  have z2: "\<forall>c \<in> set (sheet_metrics ''CHT''). cell_at t ms c = Some (IntV 0)"
    if "k \<notin> sheet_pairs L p ''CHT''"
  proof -
    from that have "k \<notin> set k2" by (simp add: sheet_pairs_loaded[OF ld(2) kc(2)])
    from joined_absent[OF ok(2) kc(2) this] j2 have "y1 = Missing" "y2 = Missing" "y3 = Missing"
      by (simp_all add: numeral_eq_Suc)
    then show ?thesis
      unfolding ms mc j1 j2 j3 j4 cell_at_def by (simp add: sheet_metrics_def)
  qed
  have z3: "\<forall>c \<in> set (sheet_metrics ''CHD''). cell_at t ms c = Some (IntV 0)"
    if "k \<notin> sheet_pairs L p ''CHD''"
  proof -
    from that have "k \<notin> set k3" by (simp add: sheet_pairs_loaded[OF ld(3) kc(3)])
    from joined_absent[OF ok(3) kc(3) this] j3
    have "z1 = Missing" "z2 = Missing" "z3 = Missing" "z4 = Missing" "z5 = Missing"
      by (simp_all add: numeral_eq_Suc)
    then show ?thesis
      unfolding ms mc j1 j2 j3 j4 cell_at_def by (simp add: sheet_metrics_def)
  qed
  have z4: "\<forall>c \<in> set (sheet_metrics ''CHE''). cell_at t ms c = Some (IntV 0)"
    if "k \<notin> sheet_pairs L p ''CHE''"
  proof -
    from that have "k \<notin> set k4" by (simp add: sheet_pairs_loaded[OF ld(4) kc(4)])
    from joined_absent[OF ok(4) kc(4) this] j4
    have "w1 = Missing" "w2 = Missing" "w3 = Missing" "w4 = Missing" "w5 = Missing"
      "w6 = Missing" "w7 = Missing" "w8 = Missing"
      by (simp_all add: numeral_eq_Suc)
    then show ?thesis
      unfolding ms mc j1 j2 j3 j4 cell_at_def by (simp add: sheet_metrics_def)
  qed
  from z1 z2 z3 z4
  have "\<forall>s \<in> set required_sheets. k \<notin> sheet_pairs L p s \<longrightarrow>
             (\<forall>c \<in> set (sheet_metrics s). cell_at t ms c = Some (IntV 0))"
    unfolding required_sheets_def by (simp del: One_nat_def)
  with len nm show ?thesis by blast
qed

theorem metrics_never_missing_witness:
  "((TsV 1, StrV ''A2''),
      [IntV 0, IntV 0, IntV 0, IntV 0, IntV 0, IntV 2, IntV 1, IntV 1,
       IntV 1, IntV 1, IntV 0, IntV 0, IntV 0, IntV 0, IntV 0, IntV 0,
       IntV 0, IntV 0]) \<in> set (trows small_kpi)
   \<and> ''CHO'' \<in> set required_sheets
   \<and> (TsV 1, StrV ''A2'') \<notin> sheet_pairs demo_pandas (Pipeline small_workbook) ''CHO''
   \<and> ''absent'' \<in> set (sheet_metrics ''CHO'')
   \<and> cell_at small_kpi
        [IntV 0, IntV 0, IntV 0, IntV 0, IntV 0, IntV 2, IntV 1, IntV 1,
         IntV 1, IntV 1, IntV 0, IntV 0, IntV 0, IntV 0, IntV 0, IntV 0,
         IntV 0, IntV 0] ''absent'' = Some (IntV 0)"
proof -
  have mem: "((TsV 1, StrV ''A2''),
      [IntV 0, IntV 0, IntV 0, IntV 0, IntV 0, IntV 2, IntV 1, IntV 1,
       IntV 1, IntV 1, IntV 0, IntV 0, IntV 0, IntV 0, IntV 0, IntV 0,
       IntV 0, IntV 0]) \<in> set (trows small_kpi)"
    by (simp add: small_kpi_def)
  have np: "(TsV 1, StrV ''A2'') \<notin> sheet_pairs demo_pandas (Pipeline small_workbook) ''CHO''"
    by code_simp
  have rs: "''CHO'' \<in> set required_sheets" by (simp add: required_sheets_def)
  have sm: "''absent'' \<in> set (sheet_metrics ''CHO'')" by (simp add: sheet_metrics_def)
  from metrics_never_missing [OF small_workbook_run mem] np rs sm mem show ?thesis
    by blast
qed

subsection \<open>Sheets without rows\<close>

lemma standardize_normalized:
  "standardize L df0 =
     bind_err
        (if ''date'' \<in> set (columns (normalized df0))
         then bind_err (getcol (normalized df0) ''date'') (\<lambda>d.
              bind_err (to_datetime L d) (\<lambda>d'. Inr (AList.update ''date'' d' (normalized df0))))
         else Inr (normalized df0))
        (\<lambda>df.
           if ''agentmis'' \<in> set (columns df)
           then bind_err (getcol df ''agentmis'') (\<lambda>a.
                Inr (AList.update ''agentmis'' (map (\<lambda>c. StrV (astype_str L c)) a) df))
           else Inr df)"
  by (simp add: standardize_def Let_def)

lemma no_rows_update: "no_rows df \<Longrightarrow> no_rows (AList.update c [] df)"
  by (induction df) (auto simp: no_rows_def)

lemma no_rows_getcol: "no_rows df \<Longrightarrow> getcol df c = Inr v \<Longrightarrow> v = []"
  by (auto simp: no_rows_def getcol_def list_all_iff split: option.splits dest!: map_of_SomeD)

lemma getcol_present: "c \<in> set (columns df) \<Longrightarrow> \<exists>v. getcol df c = Inr v"
  by (cases "map_of df c") (auto simp: getcol_def columns_def map_of_eq_None_iff)

lemma no_rows_normalized: "no_rows df \<Longrightarrow> no_rows (normalized df)"
  by (auto simp: no_rows_def normalized_def list_all_iff)

lemma standardize_no_rows:
  assumes "no_rows df0"
  shows "\<exists>df. standardize L df0 = Inr df \<and> no_rows df"
proof -
  let ?n = "normalized df0"
  have n: "no_rows ?n" using assms by (rule no_rows_normalized)
  obtain df1 where 1: "(if ''date'' \<in> set (columns ?n)
         then bind_err (getcol ?n ''date'') (\<lambda>d.
              bind_err (to_datetime L d) (\<lambda>d'. Inr (AList.update ''date'' d' ?n)))
         else Inr ?n) = Inr df1" and n1: "no_rows df1"
  proof (cases "''date'' \<in> set (columns ?n)")
    case True
    then obtain v where v: "getcol ?n ''date'' = Inr v" using getcol_present by blast
    with n have "v = []" by (rule no_rows_getcol)
    with v True that[of "AList.update ''date'' [] ?n"] n show ?thesis
      by (simp add: bind_err_def to_datetime_def no_rows_update)
  next
    case False
    with that[of ?n] n show ?thesis by simp
  qed
  show ?thesis
  proof (cases "''agentmis'' \<in> set (columns df1)")
    case True
    then obtain v where v: "getcol df1 ''agentmis'' = Inr v" using getcol_present by blast
    with n1 have "v = []" by (rule no_rows_getcol)
    with v True 1 n1 show ?thesis
      by (simp add: standardize_normalized bind_err_def no_rows_update)
  next
    case False
    with 1 n1 show ?thesis by (simp add: standardize_normalized bind_err_def)
  qed
qed

lemma key_columns_no_rows: "no_rows df \<Longrightarrow> key_columns df = Inr ks \<Longrightarrow> ks = []"
  by (auto simp: key_columns_def dest!: bind_err_Inr dest: no_rows_getcol)

lemma date_range_Nil: "date_range L [] = Inl (ValueError ''NaTType does not support strftime'')"
  by (simp add: date_range_def min_date_def strftime_ymd_def bind_err_def)

lemma read_excel_sheet: "read_excel L wb s = Inr df \<Longrightarrow> s \<in> set (sheet_names wb)"
  by (auto simp: read_excel_def sheet_names_def split: option.splits dest!: map_of_SomeD
      intro: rev_image_eqI)

lemma sheet_read_excel: "s \<in> set (sheet_names wb) \<Longrightarrow> \<exists>df. read_excel L wb s = Inr df"
  by (cases "map_of wb s") (auto simp: read_excel_def sheet_names_def map_of_eq_None_iff)

lemma present_not_missing:
  assumes "\<forall>s \<in> set required_sheets. \<exists>df. read_excel L (file' p) s = Inr df"
  shows "missing_sheets p = []"
  using assms by (auto simp: missing_sheets_def filter_empty_conv dest: read_excel_sheet)

lemma load_one_present:
  "read_excel L (file' p) s = Inr df \<Longrightarrow> load_one L p s = standardize L df"
  by (simp add: load_one_def bind_err_def)

lemma load_sheets_ok:
  assumes "missing_sheets p = []"
    "load_one L p ''CHO'' = Inr f1" "load_one L p ''CHT'' = Inr f2"
    "load_one L p ''CHD'' = Inr f3" "load_one L p ''CHE'' = Inr f4"
  shows "load_sheets L p = (Inr (), p\<lparr>cho := Some f1, cht := Some f2, chd := Some f3, che := Some f4,
           stats := (stats p)
           (''cho_rows'' \<mapsto> IntV (int (len f1)),
            ''cht_rows'' \<mapsto> IntV (int (len f2)),
            ''chd_rows'' \<mapsto> IntV (int (len f3)),
            ''che_rows'' \<mapsto> IntV (int (len f4)))\<rparr>)"
  using assms by (simp add: load_sheets_def validate_sheets_def)

lemma build_db_base_fails:
  "load_sheets L p = (Inr u, p1) \<Longrightarrow> build_base L p1 = (Inl e, p2) \<Longrightarrow> build_db L p = (Inl e, p2)"
  by (simp add: build_db_def then_do_def)

lemma columns_update: "c \<in> set (columns df) \<Longrightarrow> set (columns (AList.update c v df)) = set (columns df)"
  using dom_update[of c v df] by (auto simp: columns_def)

lemma standardize_columns:
  assumes "standardize L df0 = Inr df"
  shows "set (columns df) = set (columns (normalized df0))"
proof -
  from assms obtain df1 where 1: "(if ''date'' \<in> set (columns (normalized df0))
         then bind_err (getcol (normalized df0) ''date'') (\<lambda>d.
              bind_err (to_datetime L d) (\<lambda>d'. Inr (AList.update ''date'' d' (normalized df0))))
         else Inr (normalized df0)) = Inr df1"
    and 2: "(if ''agentmis'' \<in> set (columns df1)
           then bind_err (getcol df1 ''agentmis'') (\<lambda>a.
                Inr (AList.update ''agentmis'' (map (\<lambda>c. StrV (astype_str L c)) a) df1))
           else Inr df1) = Inr df"
    unfolding standardize_normalized by (blast dest: bind_err_Inr)
  from 1 have c1: "set (columns df1) = set (columns (normalized df0))"
    by (auto split: if_splits dest!: bind_err_Inr simp: columns_update)
  from 2 have "set (columns df) = set (columns df1)"
    by (auto split: if_splits dest!: bind_err_Inr simp: columns_update)
  with c1 show ?thesis by simp
qed

lemma key_columns_present:
  assumes "''date'' \<in> set (columns df)" "''agentmis'' \<in> set (columns df)"
  shows "\<exists>ks. key_columns df = Inr ks"
proof -
  from assms obtain d a where "getcol df ''date'' = Inr d" "getcol df ''agentmis'' = Inr a"
    using getcol_present by blast
  then show ?thesis by (simp add: key_columns_def bind_err_def)
qed

lemma concat_keys_cases:
  assumes "cho p = Some f1" "cht p = Some f2" "chd p = Some f3" "che p = Some f4"
  shows "concat_keys p =
     bind_err (key_columns f1) (\<lambda>k1.
     bind_err (key_columns f2) (\<lambda>k2.
     bind_err (key_columns f3) (\<lambda>k3.
     bind_err (key_columns f4) (\<lambda>k4.
       Inr (k1 @ k2 @ k3 @ k4)))))"
  using assms by (simp add: concat_keys_def loaded_def bind_err_def)

lemma build_base_no_keys:
  assumes "concat_keys p = Inr []"
  shows "build_base L p = (Inl (ValueError ''NaTType does not support strftime''),
     p\<lparr>base := Some \<lparr>tcolumns = [''date'', ''agentmis''], trows = []\<rparr>,
       stats := (stats p)(''unique_agents'' \<mapsto> IntV 0)\<rparr>)"
  using assms
  by (simp add: build_base_def drop_duplicates_def date_range_Nil nunique_def)

lemma build_base_Inl:
  "concat_keys p = Inl e \<Longrightarrow> build_base L p = (Inl e, p)"
  by (simp add: build_base_def)

text \<open>
  C10. When CHO, CHT, CHD and CHE are all present and none has a data row, \<open>build_db\<close>
  raises and returns no table. When the four sheets carry their \<^verbatim>\<open>date\<close> and
  \<^verbatim>\<open>agentmis\<close> columns, the error is the one of \<^verbatim>\<open>strftime\<close> on the missing minimum
  date in \<open>build_base\<close>, raised after the empty base table has been stored.
\<close>

theorem empty_sheets_raise:
  assumes "\<forall>s \<in> set required_sheets. \<exists>df. read_excel L (file' p) s = Inr df \<and> no_rows df"
  shows "\<exists>e p2. build_db L p = (Inl e, p2)
     \<and> ((\<forall>s \<in> set required_sheets. \<forall>df. read_excel L (file' p) s = Inr df
            \<longrightarrow> has_key_columns df)
          \<longrightarrow> e = ValueError ''NaTType does not support strftime''
            \<and> base p2 = Some \<lparr>tcolumns = [''date'', ''agentmis''], trows = []\<rparr>)"
proof -
  from assms obtain d1 d2 d3 d4 where
    pr: "read_excel L (file' p) ''CHO'' = Inr d1" "read_excel L (file' p) ''CHT'' = Inr d2"
        "read_excel L (file' p) ''CHD'' = Inr d3" "read_excel L (file' p) ''CHE'' = Inr d4"
    and nr: "no_rows d1" "no_rows d2" "no_rows d3" "no_rows d4"
    unfolding required_sheets_def by auto
  from assms have ms: "missing_sheets p = []"
    by (intro present_not_missing[where L = L]) auto
  from standardize_no_rows[OF nr(1), of L] standardize_no_rows[OF nr(2), of L]
    standardize_no_rows[OF nr(3), of L] standardize_no_rows[OF nr(4), of L]
  obtain f1 f2 f3 f4 where
    st: "standardize L d1 = Inr f1" "standardize L d2 = Inr f2"
        "standardize L d3 = Inr f3" "standardize L d4 = Inr f4"
    and nf: "no_rows f1" "no_rows f2" "no_rows f3" "no_rows f4"
    by blast
  define p1 where "p1 = p\<lparr>cho := Some f1, cht := Some f2, chd := Some f3, che := Some f4,
           stats := (stats p)
           (''cho_rows'' \<mapsto> IntV (int (len f1)),
            ''cht_rows'' \<mapsto> IntV (int (len f2)),
            ''chd_rows'' \<mapsto> IntV (int (len f3)),
            ''che_rows'' \<mapsto> IntV (int (len f4)))\<rparr>"
  have ls: "load_sheets L p = (Inr (), p1)"
    unfolding p1_def
    by (rule load_sheets_ok[OF ms]) (simp_all add: load_one_present pr st)
  have ck: "concat_keys p1 =
     bind_err (key_columns f1) (\<lambda>k1.
     bind_err (key_columns f2) (\<lambda>k2.
     bind_err (key_columns f3) (\<lambda>k3.
     bind_err (key_columns f4) (\<lambda>k4.
       Inr (k1 @ k2 @ k3 @ k4)))))"
    by (rule concat_keys_cases) (simp_all add: p1_def)
  have nil: "concat_keys p1 = Inr ks \<Longrightarrow> ks = []" for ks
    unfolding ck using nf by (auto dest!: bind_err_Inr dest: key_columns_no_rows)
  have keyed: "concat_keys p1 = Inr []"
    if "\<forall>s \<in> set required_sheets. \<forall>df. read_excel L (file' p) s = Inr df
          \<longrightarrow> has_key_columns df"
  proof -
    from that pr have hk: "has_key_columns d1" "has_key_columns d2" "has_key_columns d3"
      "has_key_columns d4"
      by (simp_all add: required_sheets_def)
    have kp: "\<exists>ks. key_columns f = Inr ks" if "standardize L d = Inr f" "has_key_columns d" for d f
      using that standardize_columns[OF that(1)]
      by (intro key_columns_present) (simp_all add: has_key_columns_def)
    from kp[OF st(1) hk(1)] kp[OF st(2) hk(2)] kp[OF st(3) hk(3)] kp[OF st(4) hk(4)]
    obtain k1 k2 k3 k4 where "key_columns f1 = Inr k1" "key_columns f2 = Inr k2"
      "key_columns f3 = Inr k3" "key_columns f4 = Inr k4" by blast
    with nf show ?thesis unfolding ck
      by (auto simp: bind_err_def dest: key_columns_no_rows)
  qed
  show ?thesis
  proof (cases "concat_keys p1")
    case (Inl e)
    from build_db_base_fails[OF ls build_base_Inl[OF Inl]] keyed Inl show ?thesis
      by auto
  next
    case (Inr ks)
    with nil have c: "concat_keys p1 = Inr []" by simp
    from build_db_base_fails[OF ls build_base_no_keys[OF c]] show ?thesis
      by simp
  qed
qed

theorem empty_sheets_raise_witness:
  "no_rows [(''date'', []), (''agentmis'', []), (''status'', [])]
   \<and> read_excel demo_pandas (file' (Pipeline empty_workbook)) ''CHO'' =
        Inr [(''date'', []), (''agentmis'', []), (''status'', [])]
   \<and> fst (build_db demo_pandas (Pipeline empty_workbook)) =
        Inl (ValueError ''NaTType does not support strftime'')"
proof -
  have e: "read_excel demo_pandas (file' (Pipeline empty_workbook)) ''CHO'' =
        Inr [(''date'', []), (''agentmis'', []), (''status'', [])]"
    "read_excel demo_pandas (file' (Pipeline empty_workbook)) ''CHT'' =
        Inr [(''date'', []), (''agentmis'', []), (''ans_vol'', []), (''aht'', []),
             (''art'', [])]"
    "read_excel demo_pandas (file' (Pipeline empty_workbook)) ''CHD'' =
        Inr [(''date'', []), (''agentmis'', []), (''score'', []), (''sloved'', [])]"
    "read_excel demo_pandas (file' (Pipeline empty_workbook)) ''CHE'' =
        Inr [(''date'', []), (''agentmis'', []), (''final'', []), (''rc1'', []),
             (''rc2'', []), (''rc'', []), (''bc'', []), (''cc'', [])]"
    by code_simp+
  have h: "\<forall>s \<in> set required_sheets.
      \<exists>df. read_excel demo_pandas (file' (Pipeline empty_workbook)) s = Inr df \<and> no_rows df"
    by (simp add: required_sheets_def e no_rows_def)
  have k: "\<forall>s \<in> set required_sheets.
      \<forall>df. read_excel demo_pandas (file' (Pipeline empty_workbook)) s = Inr df
        \<longrightarrow> has_key_columns df"
    by (simp add: required_sheets_def e has_key_columns_def normalized_def columns_def)
       code_simp
  have c: "no_rows [(''date'', []), (''agentmis'', []), (''status'', [])]"
    by (simp add: no_rows_def)
  from empty_sheets_raise [OF h] k c e(1) show ?thesis
    by auto
qed

subsection \<open>Failures while loading\<close>

lemma sequence_err_fails: "Inl e \<in> set rs \<Longrightarrow> \<exists>e'. sequence_err rs = Inl e'"
  by (induction rs) (auto split: sum.splits)

lemma to_datetime_cell_Inl: "to_datetime_cell L c = Inl e \<Longrightarrow> e = DateParseError c"
  by (auto simp: to_datetime_cell_def split: cell.splits option.splits)

text \<open>A rejected date is caught by \<^verbatim>\<open>except ValueError\<close>, like a missing sheet.\<close>

lemma to_datetime_cell_ValueError: "to_datetime_cell L c = Inl e \<Longrightarrow> is_ValueError e"
  by (auto dest: to_datetime_cell_Inl simp: is_ValueError_def)

lemma to_datetime_Inl:
  assumes "to_datetime L col = Inl e"
  shows "\<exists>c \<in> set col. e = DateParseError c \<and> unparseable L c"
proof -
  from assms have "Inl e \<in> set (map (to_datetime_cell L) col)"
    unfolding to_datetime_def by (rule sequence_err_Inl)
  then obtain c where c: "c \<in> set col" "to_datetime_cell L c = Inl e" by auto
  from to_datetime_cell_Inl[OF c(2)] c show ?thesis by (auto simp: unparseable_def)
qed

lemma to_datetime_fails:
  assumes "c \<in> set col" "unparseable L c"
  shows "\<exists>e. to_datetime L col = Inl e"
proof -
  from assms have "Inl (DateParseError c) \<in> set (map (to_datetime_cell L) col)"
    by (force simp: unparseable_def)
  then show ?thesis unfolding to_datetime_def by (rule sequence_err_fails)
qed

lemma getcol_columns: "getcol df c = Inr v \<Longrightarrow> c \<in> set (columns df)"
  by (auto simp: getcol_def columns_def split: option.splits dest!: map_of_SomeD intro: rev_image_eqI)

lemma standardize_Inl:
  assumes "standardize L df = Inl e"
  shows "\<exists>col. getcol (normalized df) ''date'' = Inr col
     \<and> (\<exists>c \<in> set col. e = DateParseError c \<and> unparseable L c)"
proof (cases "''date'' \<in> set (columns (normalized df))")
  case True
  then obtain col where col: "getcol (normalized df) ''date'' = Inr col"
    using getcol_present by blast
  show ?thesis
  proof (cases "to_datetime L col")
    case (Inl e')
    with assms True col have "e = e'"
      by (simp add: standardize_normalized bind_err_def)
    with to_datetime_Inl[OF Inl] col show ?thesis by blast
  next
    case (Inr d')
    with assms True col show ?thesis
      by (cases "''agentmis'' \<in> set (columns (AList.update ''date'' d' (normalized df)))")
         (auto simp: standardize_normalized bind_err_def split: sum.splits dest: getcol_present)
  qed
next
  case False
  with assms show ?thesis
    by (cases "''agentmis'' \<in> set (columns (normalized df))")
       (auto simp: standardize_normalized bind_err_def split: sum.splits dest: getcol_present)
qed

lemma standardize_fails:
  assumes "getcol (normalized df) ''date'' = Inr col" "c \<in> set col" "unparseable L c"
  shows "\<exists>e. standardize L df = Inl e"
proof -
  from to_datetime_fails[OF assms(2,3)] obtain e where "to_datetime L col = Inl e" by blast
  with assms(1) getcol_columns[OF assms(1)] show ?thesis
    by (simp add: standardize_normalized bind_err_def)
qed

lemma load_sheets_fails:
  assumes "missing_sheets p = []" "s \<in> set required_sheets" "load_one L p s = Inl e0"
  shows "\<exists>e p2 s'. load_sheets L p = (Inl e, p2) \<and> s' \<in> set required_sheets
     \<and> load_one L p s' = Inl e \<and> base p2 = base p \<and> stats p2 = stats p"
proof (cases "load_one L p ''CHO''")
  case (Inl e)
  with assms(1) show ?thesis
    by (intro exI[of _ e] exI[of _ p] exI[of _ "''CHO''"])
       (simp add: load_sheets_def validate_sheets_def required_sheets_def)
next
  case f1: (Inr f1)
  show ?thesis
  proof (cases "load_one L p ''CHT''")
    case (Inl e)
    with assms(1) f1 show ?thesis
      by (intro exI[of _ e] exI[of _ "p\<lparr>cho := Some f1\<rparr>"] exI[of _ "''CHT''"])
         (simp add: load_sheets_def validate_sheets_def required_sheets_def)
  next
    case f2: (Inr f2)
    show ?thesis
    proof (cases "load_one L p ''CHD''")
      case (Inl e)
      with assms(1) f1 f2 show ?thesis
        by (intro exI[of _ e] exI[of _ "p\<lparr>cho := Some f1, cht := Some f2\<rparr>"] exI[of _ "''CHD''"])
           (simp add: load_sheets_def validate_sheets_def required_sheets_def)
    next
      case f3: (Inr f3)
      show ?thesis
      proof (cases "load_one L p ''CHE''")
        case (Inl e)
        with assms(1) f1 f2 f3 show ?thesis
          by (intro exI[of _ e] exI[of _ "p\<lparr>cho := Some f1, cht := Some f2, chd := Some f3\<rparr>"]
                exI[of _ "''CHE''"])
             (simp add: load_sheets_def validate_sheets_def required_sheets_def)
      next
        case f4: (Inr f4)
        with assms(2,3) f1 f2 f3 show ?thesis
          by (auto simp: required_sheets_def)
      qed
    qed
  qed
qed

lemma build_db_load_fails:
  "load_sheets L p = (Inl e, p2) \<Longrightarrow> build_db L p = (Inl e, p2)"
  by (simp add: build_db_def then_do_def)

lemma row_filled:
  assumes "build_db L p = (Inr t, p')" and "(k, ms) \<in> set (trows t)"
  shows "length ms = 18 \<and> Missing \<notin> set ms"
proof -
  from assms(1) obtain f1 f2 f3 f4 a1 a2 a3 a4 ks where
    ag: "cho_agg L f1 = Inr a1" "cht_agg L f2 = Inr a2" "chd_agg L f3 = Inr a3"
        "che_agg L f4 = Inr a4"
    and rows: "trows t = map (\<lambda>k. (k, map (\<lambda>c. if c = Missing then IntV 0 else c)
          (joined a1 k @ joined a2 k @ joined a3 k @ joined a4 k))) ks"
    by (rule final_table)
  from assms(2) rows have ms: "ms = map (\<lambda>c. if c = Missing then IntV 0 else c)
          (joined a1 k @ joined a2 k @ joined a3 k @ joined a4 k)"
    by auto
  have "length ms = 18"
    unfolding ms
    by (simp add: agg_ok_joined[OF cho_agg_ok[OF ag(1)]] agg_ok_joined[OF cht_agg_ok[OF ag(2)]]
        agg_ok_joined[OF chd_agg_ok[OF ag(3)]] agg_ok_joined[OF che_agg_ok[OF ag(4)]])
  moreover have "Missing \<notin> set ms"
    unfolding ms by (rule fill_no_missing)
  ultimately show ?thesis by simp
qed

lemma build_db_complete:
  assumes "build_db L p = (Inr t, p')"
  shows "complete_table L p t"
proof -
  from assms obtain k1 k2 k3 k4 where
    sp: "sheet_pairs L p ''CHO'' = set k1" "sheet_pairs L p ''CHT'' = set k2"
    "sheet_pairs L p ''CHD'' = set k3" "sheet_pairs L p ''CHE'' = set k4"
    and ks: "map fst (trows t) = drop_duplicates (k1 @ k2 @ k3 @ k4)"
    by (rule final_keys)
  from assms have cols: "tcolumns t = kpi_columns" by (rule final_table)
  have "fst ` set (trows t) = set (map fst (trows t))" by simp
  also have "\<dots> = set (k1 @ k2 @ k3 @ k4)" unfolding ks by (rule set_drop_duplicates)
  finally have keys: "fst ` set (trows t) =
          sheet_pairs L p ''CHO'' \<union> sheet_pairs L p ''CHT'' \<union> sheet_pairs L p ''CHD''
          \<union> sheet_pairs L p ''CHE''"
    by (simp add: sp Un_assoc)
  have "length ms = 18 \<and> Missing \<notin> set ms" if "(k, ms) \<in> set (trows t)" for k ms
    using row_filled[OF assms that] .
  then have "list_all (\<lambda>(k, ms). length ms = 18 \<and> Missing \<notin> set ms) (trows t)"
    by (auto simp: list_all_iff)
  with cols keys show ?thesis by (simp add: complete_table_def)
qed

lemma load_one_Inl:
  assumes "load_one L p s = Inl e" "s \<in> set (sheet_names (file' p))"
  shows "\<exists>c. e = DateParseError c \<and> unparseable L c"
proof -
  from sheet_read_excel[OF assms(2)] obtain df where "read_excel L (file' p) s = Inr df"
    by blast
  with assms(1) have "standardize L df = Inl e" by (simp add: load_one_present)
  from standardize_Inl[OF this] show ?thesis by blast
qed

lemma required_present:
  "missing_sheets p = [] \<Longrightarrow> s \<in> set required_sheets \<Longrightarrow> s \<in> set (sheet_names (file' p))"
  by (auto simp: missing_sheets_def filter_empty_conv)

text \<open>
  C8. When the \<^verbatim>\<open>date\<close> column of one of the four sheets holds a value that
  \<^verbatim>\<open>pd.to_datetime\<close> rejects, \<open>build_db\<close> raises and the base table of the pipeline is
  untouched; with all four sheets present the error is the parser's own, for a rejected cell, so
  no value is replaced by a sentinel. And whenever \<open>build_db\<close> returns a table at all, the
  table is complete: a run ends either in an error or in the full KPI table.
\<close>

theorem unparseable_date_raises:
  assumes "s \<in> set required_sheets" and "read_excel L (file' p) s = Inr df"
    and "getcol (normalized df) ''date'' = Inr col" and "c \<in> set col" and "unparseable L c"
  shows "(\<exists>e p2. build_db L p = (Inl e, p2) \<and> base p2 = base p
            \<and> (missing_sheets p = [] \<longrightarrow> (\<exists>c'. e = DateParseError c' \<and> unparseable L c')))
       \<and> (\<forall>q t q'. build_db L q = (Inr t, q') \<longrightarrow> complete_table L q t)"
proof -
  have raises: "\<exists>e p2. build_db L p = (Inl e, p2) \<and> base p2 = base p
            \<and> (missing_sheets p = [] \<longrightarrow> (\<exists>c'. e = DateParseError c' \<and> unparseable L c'))"
  proof (cases "missing_sheets p = []")
    case True
    from standardize_fails[OF assms(3,4,5)] obtain e0 where "standardize L df = Inl e0" by blast
    with assms(2) have "load_one L p s = Inl e0" by (simp add: load_one_present)
    from load_sheets_fails[OF True assms(1) this] obtain e p2 s' where
      ls: "load_sheets L p = (Inl e, p2)" and s': "s' \<in> set required_sheets"
      and lo: "load_one L p s' = Inl e" and b: "base p2 = base p"
      by blast
    from load_one_Inl[OF lo required_present[OF True s']]
    have "\<exists>c'. e = DateParseError c' \<and> unparseable L c'" .
    with build_db_load_fails[OF ls] b show ?thesis by blast
  next
    case False
    from build_db_missing[OF False] False show ?thesis by blast
  qed
  have "\<forall>q t q'. build_db L q = (Inr t, q') \<longrightarrow> complete_table L q t"
    by (blast intro: build_db_complete)
  with raises show ?thesis by blast
qed

theorem unparseable_date_raises_witness:
  "''CHT'' \<in> set required_sheets
   \<and> unparseable demo_pandas (StrV ''yesterday'')
   \<and> fst (build_db demo_pandas (Pipeline bad_date_workbook)) =
        Inl (DateParseError (StrV ''yesterday''))
   \<and> base (snd (build_db demo_pandas (Pipeline bad_date_workbook))) = None
   \<and> complete_table demo_pandas (Pipeline small_workbook) small_kpi"
proof -
  have r: "''CHT'' \<in> set required_sheets" by (simp add: required_sheets_def)
  have m: "read_excel demo_pandas (file' (Pipeline bad_date_workbook)) ''CHT'' =
     Inr [(''Date'', [StrV ''2024-01-01'', StrV ''yesterday'']),
           (''agentmis'', [StrV ''A1'', StrV ''A1'']),
           (''ans_vol'', [IntV 3, IntV 4]), (''aht'', [IntV 3, IntV 4]),
           (''art'', [IntV 3, IntV 4])]"
    by code_simp
  have g: "getcol (normalized [(''Date'', [StrV ''2024-01-01'', StrV ''yesterday'']),
           (''agentmis'', [StrV ''A1'', StrV ''A1'']),
           (''ans_vol'', [IntV 3, IntV 4]), (''aht'', [IntV 3, IntV 4]),
           (''art'', [IntV 3, IntV 4])]) ''date'' = Inr [StrV ''2024-01-01'', StrV ''yesterday'']"
    by code_simp
  have c: "StrV ''yesterday'' \<in> set [StrV ''2024-01-01'', StrV ''yesterday'']" by simp
  have u: "unparseable demo_pandas (StrV ''yesterday'')" by code_simp
  have e: "fst (build_db demo_pandas (Pipeline bad_date_workbook)) =
        Inl (DateParseError (StrV ''yesterday''))" by code_simp
  have b: "base (Pipeline bad_date_workbook) = None" by (simp add: Pipeline_def)
  from unparseable_date_raises [OF r m g c u] small_workbook_run e b r u show ?thesis
    by (metis snd_conv)
qed

subsection \<open>The cells of a row of the returned table\<close>

lemma sequence_err_all_Inr: "sequence_err (map (\<lambda>x. Inr (h x)) xs) = Inr (map h xs)"
  by (induction xs) auto

lemma groupby_agg_total:
  "groupby_agg ks (\<lambda>k. Inr (g k)) = Inr (map (\<lambda>k. (k, g k)) (group_keys ks))"
  unfolding groupby_agg_def bind_err_def
  using sequence_err_all_Inr[of "\<lambda>k. (k, g k)" "group_keys ks"] by simp

lemma cho_agg_rows:
  assumes "cho_agg L df = Inr a" "key_columns df = Inr ks" "getcol df ''status'' = Inr status"
  shows "trows a = map (\<lambda>k. (k,
      [count_true (\<lambda>c. str_lower L c = ''no show'') (group_of ks status k),
       count_true (\<lambda>c. str_lower L c \<notin> set [''off'']) (group_of ks status k)]))
      (group_keys ks)"
  using assms unfolding cho_agg_def by (auto simp: bind_err_def groupby_agg_total)

lemma chd_agg_rows:
  assumes "chd_agg L df = Inr a" "key_columns df = Inr ks" "getcol df ''score'' = Inr score"
    "getcol df ''sloved'' = Inr sloved"
  shows "trows a = map (\<lambda>k. (k,
      [count_notnull (group_of ks score k),
       count_true (\<lambda>c. str_lower L c = ''yes'') (group_of ks sloved k),
       count_true (\<lambda>c. str_lower L c \<noteq> ''yes'') (group_of ks sloved k),
       csat (group_of ks score k),
       dsat (group_of ks score k)]))
      (group_keys ks)"
  using assms unfolding chd_agg_def by (auto simp: bind_err_def groupby_agg_total)

lemma joined_present:
  assumes "trows a = map (\<lambda>k. (k, g k)) gs" "k \<in> set gs"
  shows "joined a k = g k"
  using assms by (simp add: joined_def map_of_map_restrict)

lemma final_row_cells:
  assumes "build_db L p = (Inr t, p')" and "(k, ms) \<in> set (trows t)"
  obtains f1 f2 f3 f4 k1 k2 k3 k4 a1 a2 a3 a4
    x1 x2 y1 y2 y3 z1 z2 z3 z4 z5 w1 w2 w3 w4 w5 w6 w7 w8 where
    "load_one L p ''CHO'' = Inr f1" "load_one L p ''CHT'' = Inr f2"
    "load_one L p ''CHD'' = Inr f3" "load_one L p ''CHE'' = Inr f4"
    "key_columns f1 = Inr k1" "key_columns f2 = Inr k2"
    "key_columns f3 = Inr k3" "key_columns f4 = Inr k4"
    "cho_agg L f1 = Inr a1" "cht_agg L f2 = Inr a2" "chd_agg L f3 = Inr a3" "che_agg L f4 = Inr a4"
    "joined a1 k = [x1, x2]" "joined a2 k = [y1, y2, y3]" "joined a3 k = [z1, z2, z3, z4, z5]"
    "joined a4 k = [w1, w2, w3, w4, w5, w6, w7, w8]"
    "cell_at t ms = map_of (zip
       [''absent'', ''scheduled'', ''ans_vol'',
        ''aht_min'', ''art_min'', ''surveyed_count'', ''solved_count'',
        ''not_solved_count'', ''csat_count'', ''dsat_count'',
        ''evaluated_count'', ''pass_eval_count'', ''fail_eval_count'',
        ''rc1_fail'', ''rc2_fail'', ''rc_fail'', ''bc_fail'', ''cc_fail'']
       (map (\<lambda>c. if c = Missing then IntV 0 else c)
         [x1, x2, y1, y2, y3, z1, z2, z3, z4, z5, w1, w2, w3, w4, w5, w6, w7, w8]))"
proof -
  from assms(1) obtain f1 f2 f3 f4 k1 k2 k3 k4 a1 a2 a3 a4 where
    ld: "load_one L p ''CHO'' = Inr f1" "load_one L p ''CHT'' = Inr f2"
    "load_one L p ''CHD'' = Inr f3" "load_one L p ''CHE'' = Inr f4"
    and kc: "key_columns f1 = Inr k1" "key_columns f2 = Inr k2"
    "key_columns f3 = Inr k3" "key_columns f4 = Inr k4"
    and ag: "cho_agg L f1 = Inr a1" "cht_agg L f2 = Inr a2" "chd_agg L f3 = Inr a3" "che_agg L f4 = Inr a4"
    and cols: "tcolumns t = kpi_columns"
    and rows: "trows t = map (\<lambda>k. (k, map (\<lambda>c. if c = Missing then IntV 0 else c)
          (joined a1 k @ joined a2 k @ joined a3 k @ joined a4 k)))
          (drop_duplicates (k1 @ k2 @ k3 @ k4))"
    by (rule final_table)
  note ok = cho_agg_ok[OF ag(1)] cht_agg_ok[OF ag(2)] chd_agg_ok[OF ag(3)] che_agg_ok[OF ag(4)]
  from assms(2) rows have ms: "ms = map (\<lambda>c. if c = Missing then IntV 0 else c)
          (joined a1 k @ joined a2 k @ joined a3 k @ joined a4 k)"
    by auto
  obtain x1 x2 where j1: "joined a1 k = [x1, x2]"
    using len2[OF agg_ok_joined[OF ok(1)]] by blast
  obtain y1 y2 y3 where j2: "joined a2 k = [y1, y2, y3]"
    using len3[OF agg_ok_joined[OF ok(2)]] by blast
  obtain z1 z2 z3 z4 z5 where j3: "joined a3 k = [z1, z2, z3, z4, z5]"
    using len5[OF agg_ok_joined[OF ok(3)]] by blast
  obtain w1 w2 w3 w4 w5 w6 w7 w8 where j4: "joined a4 k = [w1, w2, w3, w4, w5, w6, w7, w8]"
    using len8[OF agg_ok_joined[OF ok(4)]] by blast
  have "cell_at t ms = map_of (zip
       [''absent'', ''scheduled'', ''ans_vol'',
        ''aht_min'', ''art_min'', ''surveyed_count'', ''solved_count'',
        ''not_solved_count'', ''csat_count'', ''dsat_count'',
        ''evaluated_count'', ''pass_eval_count'', ''fail_eval_count'',
        ''rc1_fail'', ''rc2_fail'', ''rc_fail'', ''bc_fail'', ''cc_fail'']
       (map (\<lambda>c. if c = Missing then IntV 0 else c)
         [x1, x2, y1, y2, y3, z1, z2, z3, z4, z5, w1, w2, w3, w4, w5, w6, w7, w8]))"
    unfolding cell_at_def metric_cols_kpi[OF cols] ms j1 j2 j3 j4 by (intro ext) simp
  from that[OF ld kc ag j1 j2 j3 j4 this] show thesis .
qed

subsection \<open>Satisfaction counts\<close>

lemma chd_agg_Inr:
  assumes "chd_agg L df = Inr a"
  obtains ks score sloved where "key_columns df = Inr ks" "getcol df ''score'' = Inr score"
    "getcol df ''sloved'' = Inr sloved"
  using assms unfolding chd_agg_def by (auto dest!: bind_err_Inr)

lemma chd_row:
  assumes "build_db L p = (Inr t, p')" and "(k, ms) \<in> set (trows t)"
    and "load_one L p ''CHD'' = Inr df" and "key_columns df = Inr ks"
    and "k \<in> set (group_keys ks)"
  obtains score sloved where "getcol df ''score'' = Inr score" "getcol df ''sloved'' = Inr sloved"
    "cell_at t ms ''surveyed_count'' = Some (count_notnull (group_of ks score k))"
    "cell_at t ms ''solved_count'' =
       Some (count_true (\<lambda>c. str_lower L c = ''yes'') (group_of ks sloved k))"
    "cell_at t ms ''not_solved_count'' =
       Some (count_true (\<lambda>c. str_lower L c \<noteq> ''yes'') (group_of ks sloved k))"
    "cell_at t ms ''csat_count'' = Some (csat (group_of ks score k))"
    "cell_at t ms ''dsat_count'' = Some (dsat (group_of ks score k))"
proof -
  from assms(1,2) obtain f3 k3 a3
    x1 x2 y1 y2 y3 z1 z2 z3 z4 z5 w1 w2 w3 w4 w5 w6 w7 w8 where
    ld: "load_one L p ''CHD'' = Inr f3" and kc: "key_columns f3 = Inr k3"
    and ag: "chd_agg L f3 = Inr a3"
    and j3: "joined a3 k = [z1, z2, z3, z4, z5]"
    and cells: "cell_at t ms = map_of (zip
       [''absent'', ''scheduled'', ''ans_vol'',
        ''aht_min'', ''art_min'', ''surveyed_count'', ''solved_count'',
        ''not_solved_count'', ''csat_count'', ''dsat_count'',
        ''evaluated_count'', ''pass_eval_count'', ''fail_eval_count'',
        ''rc1_fail'', ''rc2_fail'', ''rc_fail'', ''bc_fail'', ''cc_fail'']
       (map (\<lambda>c. if c = Missing then IntV 0 else c)
         [x1, x2, y1, y2, y3, z1, z2, z3, z4, z5, w1, w2, w3, w4, w5, w6, w7, w8]))"
    by (rule final_row_cells)
  from ld assms(3) have f3: "f3 = df" by simp
  with kc assms(4) have k3: "k3 = ks" by simp
  from ag f3 obtain score sloved where
    g: "getcol df ''score'' = Inr score" "getcol df ''sloved'' = Inr sloved"
    by (auto elim: chd_agg_Inr)
  from chd_agg_rows[OF ag[unfolded f3] assms(4) g]
  have "joined a3 k = [count_notnull (group_of ks score k),
       count_true (\<lambda>c. str_lower L c = ''yes'') (group_of ks sloved k),
       count_true (\<lambda>c. str_lower L c \<noteq> ''yes'') (group_of ks sloved k),
       csat (group_of ks score k),
       dsat (group_of ks score k)]"
    using assms(5) by (rule joined_present)
  with j3 have z: "z1 = count_notnull (group_of ks score k)"
    "z2 = count_true (\<lambda>c. str_lower L c = ''yes'') (group_of ks sloved k)"
    "z3 = count_true (\<lambda>c. str_lower L c \<noteq> ''yes'') (group_of ks sloved k)"
    "z4 = csat (group_of ks score k)" "z5 = dsat (group_of ks score k)"
    by simp_all
  have nm: "count_true P x \<noteq> Missing" "csat x \<noteq> Missing" "dsat x \<noteq> Missing"
    "count_notnull x \<noteq> Missing" for P x
    by (simp_all add: count_true_def csat_def dsat_def count_notnull_def)
  show thesis
    by (rule that[OF g]) (simp_all add: cells z nm)
qed

lemma csat_count:
  "csat (d, g) = IntV (if d = Object then 0
     else int (length (filter (\<lambda>c. c \<in> {IntV 4, IntV 5, FloatV 4, FloatV 5}) g)))"
proof -
  have "(num_eq c 4 \<or> num_eq c 5) = (c \<in> {IntV 4, IntV 5, FloatV 4, FloatV 5})" for c
    by (cases c) (auto simp: num_eq_def is_number_def num_val_def)
  then show ?thesis
    by (cases d) (simp_all add: csat_def is_numeric_dtype_def count_true_def)
qed

lemma dsat_count:
  "dsat (d, g) = IntV (if d = Object then 0
     else int (length (filter (\<lambda>c. c \<in> {IntV 1, FloatV 1}) g)))"
proof -
  have "num_eq c 1 = (c \<in> {IntV 1, FloatV 1})" for c
    by (cases c) (auto simp: num_eq_def is_number_def num_val_def)
  then show ?thesis
    by (cases d) (simp_all add: dsat_def is_numeric_dtype_def count_true_def)
qed

lemma dtype_of_Object: "(dtype_of col = Object) = (\<not> numeric_column col)"
proof -
  have a: "(is_number c \<or> c = Missing) = (case c of StrV s \<Rightarrow> False | TsV t \<Rightarrow> False | _ \<Rightarrow> True)" for c
    by (cases c) (simp_all add: is_number_def)
  have b: "list_all is_int col \<Longrightarrow> list_all (\<lambda>c. is_number c \<or> c = Missing) col"
    by (induction col) (auto simp: is_int_def is_number_def split: cell.splits)
  show ?thesis
    using b by (auto simp: dtype_of_def numeric_column_def a)
qed

lemma rows_of_group:
  "length (filter P (map snd (filter (\<lambda>(k', v). k' = k) (zip (zip ds as) vs))))
   = length (filter (\<lambda>(d, a, v). (d, a) = k \<and> P v) (zip ds (zip as vs)))"
proof (induction ds arbitrary: as vs)
  case Nil
  then show ?case by simp
next
  case (Cons d ds)
  show ?case
  proof (cases as)
    case Nil
    then show ?thesis by simp
  next
    case a: (Cons a as')
    show ?thesis
    proof (cases vs)
      case Nil
      with a show ?thesis by simp
    next
      case (Cons v vs')
      with a Cons.IH[of as' vs'] show ?thesis by simp
    qed
  qed
qed

lemma group_key_of_sheet:
  "k \<in> set ks \<Longrightarrow> fst k \<noteq> Missing \<Longrightarrow> snd k \<noteq> Missing \<Longrightarrow> k \<in> set (group_keys ks)"
  by (auto simp: group_keys_def set_drop_duplicates)

text \<open>
  C6. Take a row of the returned table whose (date, agentmis) pair occurs, with neither part
  empty, among the rows of the Satisfaction sheet CHD. When the score column of the sheet is
  numeric, the cell \<^verbatim>\<open>csat_count\<close> of the row is the number of rows of the sheet with that
  date and that agent whose score is 4 or 5, and \<^verbatim>\<open>dsat_count\<close> the number of those whose
  score is 1. When the score column is not numeric both cells are 0, whatever the scores of
  the pair are: a score 4 in such a column is not counted.
\<close>

theorem csat_dsat_by_dtype:
  assumes "build_db L p = (Inr t, p')" and "(k, ms) \<in> set (trows t)"
    and "load_one L p ''CHD'' = Inr df"
    and "getcol df ''date'' = Inr dcol" and "getcol df ''agentmis'' = Inr acol"
    and "getcol df ''score'' = Inr score"
    and "k \<in> set (zip dcol acol)" and "fst k \<noteq> Missing" and "snd k \<noteq> Missing"
  shows "cell_at t ms ''csat_count'' =
           Some (IntV (if numeric_column score
             then int (length (filter
                    (\<lambda>(d, a, v). (d, a) = k \<and> v \<in> {IntV 4, IntV 5, FloatV 4, FloatV 5})
                    (zip dcol (zip acol score))))
             else 0))
       \<and> cell_at t ms ''dsat_count'' =
           Some (IntV (if numeric_column score
             then int (length (filter
                    (\<lambda>(d, a, v). (d, a) = k \<and> v \<in> {IntV 1, FloatV 1})
                    (zip dcol (zip acol score))))
             else 0))"
proof -
  have kc: "key_columns df = Inr (zip dcol acol)"
    using assms(4,5) by (simp add: key_columns_def bind_err_def)
  have g: "k \<in> set (group_keys (zip dcol acol))"
    using assms(7,8,9) by (rule group_key_of_sheet)
  from assms(1,2,3) kc g obtain score' where
    s: "getcol df ''score'' = Inr score'"
    and c: "cell_at t ms ''csat_count'' = Some (csat (group_of (zip dcol acol) score' k))"
    and d: "cell_at t ms ''dsat_count'' = Some (dsat (group_of (zip dcol acol) score' k))"
    by (rule chd_row)
  from s assms(6) have e: "score' = score" by simp
  have go: "group_of (zip dcol acol) score k =
      (dtype_of score, map snd (filter (\<lambda>(k', v). k' = k) (zip (zip dcol acol) score)))"
    by (simp add: group_of_def)
  have "cell_at t ms ''csat_count'' =
      Some (IntV (if numeric_column score
        then int (length (filter
               (\<lambda>(d, a, v). (d, a) = k \<and> v \<in> {IntV 4, IntV 5, FloatV 4, FloatV 5})
               (zip dcol (zip acol score))))
        else 0))"
    unfolding c e go csat_count dtype_of_Object rows_of_group by simp
  moreover have "cell_at t ms ''dsat_count'' =
      Some (IntV (if numeric_column score
        then int (length (filter
               (\<lambda>(d, a, v). (d, a) = k \<and> v \<in> {IntV 1, FloatV 1})
               (zip dcol (zip acol score))))
        else 0))"
    unfolding d e go dsat_count dtype_of_Object rows_of_group by simp
  ultimately show ?thesis by (rule conjI)
qed

lemma scores_run_table:
  "fst (build_db demo_pandas (Pipeline scores_workbook)) = Inr scores_kpi"
  by code_simp

lemma scores_run:
  "build_db demo_pandas (Pipeline scores_workbook) =
     (Inr scores_kpi, snd (build_db demo_pandas (Pipeline scores_workbook)))"
  using scores_run_table by (simp add: prod_eq_iff)

lemma text_scores_run_table:
  "fst (build_db demo_pandas (Pipeline text_scores_workbook)) = Inr text_scores_kpi"
  by code_simp

lemma text_scores_run:
  "build_db demo_pandas (Pipeline text_scores_workbook) =
     (Inr text_scores_kpi, snd (build_db demo_pandas (Pipeline text_scores_workbook)))"
  using text_scores_run_table by (simp add: prod_eq_iff)

lemma scores_chd_loaded:
  "load_one demo_pandas (Pipeline scores_workbook) ''CHD'' = Inr scores_chd"
  by code_simp

lemma text_scores_chd_loaded:
  "load_one demo_pandas (Pipeline text_scores_workbook) ''CHD'' = Inr text_scores_chd"
  by code_simp

lemma scores_chd_columns:
  "getcol scores_chd ''date'' = Inr [TsV 0, TsV 1, TsV 0, TsV 1, TsV 0]"
  "getcol scores_chd ''agentmis'' =
     Inr [StrV ''A1'', StrV ''A2'', StrV ''A1'', StrV ''A2'', StrV ''A1'']"
  "getcol scores_chd ''score'' = Inr [IntV 4, IntV 1, IntV 5, IntV 3, IntV 1]"
  by code_simp+

lemma text_scores_chd_columns:
  "getcol text_scores_chd ''date'' = Inr [TsV 0, TsV 1, TsV 1]"
  "getcol text_scores_chd ''agentmis'' = Inr [StrV ''A1'', StrV ''A2'', StrV ''A2'']"
  "getcol text_scores_chd ''score'' = Inr [IntV 4, StrV ''5'', StrV ''good'']"
  by code_simp+

lemma scores_rows_in_kpi:
  "((TsV 0, StrV ''A1''), scores_row_A1) \<in> set (trows scores_kpi)"
  "((TsV 1, StrV ''A2''), scores_row_A2) \<in> set (trows scores_kpi)"
  "((TsV 0, StrV ''A1''), text_scores_row_A1) \<in> set (trows text_scores_kpi)"
  "((TsV 1, StrV ''A2''), text_scores_row_A2) \<in> set (trows text_scores_kpi)"
  by (simp_all add: scores_kpi_def text_scores_kpi_def)

lemma scores_numeric:
  "numeric_column [IntV 4, IntV 1, IntV 5, IntV 3, IntV 1] = True"
  "numeric_column [IntV 4, StrV ''5'', StrV ''good''] = False"
  by (simp_all add: numeric_column_def)

theorem csat_dsat_by_dtype_witness:
  "fst (build_db demo_pandas (Pipeline scores_workbook)) = Inr scores_kpi
   \<and> getcol scores_chd ''score'' = Inr [IntV 4, IntV 1, IntV 5, IntV 3, IntV 1]
   \<and> numeric_column [IntV 4, IntV 1, IntV 5, IntV 3, IntV 1] = True
   \<and> cell_at scores_kpi scores_row_A1 ''csat_count'' = Some (IntV 2)
   \<and> cell_at scores_kpi scores_row_A1 ''dsat_count'' = Some (IntV 1)
   \<and> cell_at scores_kpi scores_row_A2 ''csat_count'' = Some (IntV 0)
   \<and> cell_at scores_kpi scores_row_A2 ''dsat_count'' = Some (IntV 1)
   \<and> fst (build_db demo_pandas (Pipeline text_scores_workbook)) = Inr text_scores_kpi
   \<and> getcol text_scores_chd ''score'' = Inr [IntV 4, StrV ''5'', StrV ''good'']
   \<and> numeric_column [IntV 4, StrV ''5'', StrV ''good''] = False
   \<and> cell_at text_scores_kpi text_scores_row_A1 ''csat_count'' = Some (IntV 0)
   \<and> cell_at text_scores_kpi text_scores_row_A1 ''dsat_count'' = Some (IntV 0)
   \<and> cell_at text_scores_kpi text_scores_row_A2 ''csat_count'' = Some (IntV 0)
   \<and> cell_at text_scores_kpi text_scores_row_A2 ''dsat_count'' = Some (IntV 0)"
proof -
  note r1 = scores_run_table and r2 = text_scores_run_table
  have a1: "cell_at scores_kpi scores_row_A1 ''csat_count'' = Some (IntV 2)
      \<and> cell_at scores_kpi scores_row_A1 ''dsat_count'' = Some (IntV 1)"
    using csat_dsat_by_dtype [OF scores_run scores_rows_in_kpi(1) scores_chd_loaded
        scores_chd_columns]
    by (simp add: scores_numeric)
  have a2: "cell_at scores_kpi scores_row_A2 ''csat_count'' = Some (IntV 0)
      \<and> cell_at scores_kpi scores_row_A2 ''dsat_count'' = Some (IntV 1)"
    using csat_dsat_by_dtype [OF scores_run scores_rows_in_kpi(2) scores_chd_loaded
        scores_chd_columns]
    by (simp add: scores_numeric)
  have b1: "cell_at text_scores_kpi text_scores_row_A1 ''csat_count'' = Some (IntV 0)
      \<and> cell_at text_scores_kpi text_scores_row_A1 ''dsat_count'' = Some (IntV 0)"
    using csat_dsat_by_dtype [OF text_scores_run scores_rows_in_kpi(3) text_scores_chd_loaded
        text_scores_chd_columns]
    by (simp add: scores_numeric)
  have b2: "cell_at text_scores_kpi text_scores_row_A2 ''csat_count'' = Some (IntV 0)
      \<and> cell_at text_scores_kpi text_scores_row_A2 ''dsat_count'' = Some (IntV 0)"
    using csat_dsat_by_dtype [OF text_scores_run scores_rows_in_kpi(4) text_scores_chd_loaded
        text_scores_chd_columns]
    by (simp add: scores_numeric)
  from r1 r2 a1 a2 b1 b2 scores_chd_columns(3) text_scores_chd_columns(3) scores_numeric
  show ?thesis by simp
qed

subsection \<open>Solved and not solved\<close>

lemma attendance_kpi_run:
  "build_db demo_pandas (Pipeline attendance_workbook) =
     (Inr attendance_kpi, snd (build_db demo_pandas (Pipeline attendance_workbook)))"
proof -
  have "fst (build_db demo_pandas (Pipeline attendance_workbook)) = Inr attendance_kpi"
    by code_simp
  then show ?thesis by (simp add: prod_eq_iff)
qed

lemma survey_kpi_run:
  "build_db demo_pandas (Pipeline survey_workbook) =
     (Inr survey_kpi, snd (build_db demo_pandas (Pipeline survey_workbook)))"
proof -
  have "fst (build_db demo_pandas (Pipeline survey_workbook)) = Inr survey_kpi"
    by code_simp
  then show ?thesis by (simp add: prod_eq_iff)
qed

lemma group_size:
  assumes "length ks \<le> length col"
  shows "length (snd (group_of ks col k)) = count_list ks k"
proof -
  have "length (filter (\<lambda>(k', v). k' = k) (zip ks col))
      = length (filter (\<lambda>k'. k' = k) (map fst (zip ks col)))"
    by (simp add: filter_map comp_def case_prod_unfold)
  also have "map fst (zip ks col) = ks"
    using assms by (simp add: map_fst_zip_take)
  finally have "length (filter (\<lambda>(k', v). k' = k) (zip ks col)) = length (filter ((=) k) ks)"
    by (simp add: eq_commute[of _ k])
  then show ?thesis
    by (simp add: group_of_def count_list_eq_length_filter)
qed

lemma filter_split_count:
  "length (filter P xs) + length (filter (\<lambda>x. \<not> P x) xs) = length xs"
  by (induction xs) auto

lemma filter_missing_count:
  assumes "P Missing"
  shows "length (filter P xs) =
     length (filter (\<lambda>c. c = Missing) xs) + length (filter (\<lambda>c. c \<noteq> Missing \<and> P c) xs)"
  using assms by (induction xs) auto

lemma lower_literals: "lower ''yes'' = ''yes''" "lower ''nan'' = ''nan''"
  by code_simp+

lemma lower_yes: "ci_equal s ''yes'' = (lower s = ''yes'')"
  by (simp add: ci_equal_def lower_literals)

lemma str_lower_Missing: "str_lower L Missing = ''nan''"
  by (simp add: str_lower_def astype_str_def lower_literals)

text \<open>
  C7. For a group of the Satisfaction sheet CHD, \<^verbatim>\<open>solved_count\<close> is the number of rows of
  the group whose \<^verbatim>\<open>sloved\<close> value, as text, equals \<^verbatim>\<open>yes\<close> up to case, and
  \<^verbatim>\<open>not_solved_count\<close> the number of rows whose value does not, a missing value among
  them; the two add up to the number of rows of the group.
\<close>

theorem solved_and_not_solved:
  assumes "build_db L p = (Inr t, p')" and "(k, ms) \<in> set (trows t)"
    and "load_one L p ''CHD'' = Inr df" and "key_columns df = Inr ks"
    and "getcol df ''sloved'' = Inr sloved" and "k \<in> set (group_keys ks)"
  shows "cell_at t ms ''solved_count'' =
           Some (IntV (int (length (filter (\<lambda>c. ci_equal (astype_str L c) ''yes'')
                  (snd (group_of ks sloved k))))))
       \<and> cell_at t ms ''not_solved_count'' =
           Some (IntV (int (length (filter (\<lambda>c. \<not> ci_equal (astype_str L c) ''yes'')
                  (snd (group_of ks sloved k))))))
       \<and> (\<exists>a b. cell_at t ms ''solved_count'' = Some (IntV a)
              \<and> cell_at t ms ''not_solved_count'' = Some (IntV b)
              \<and> a + b = int (length (snd (group_of ks sloved k))))
       \<and> \<not> ci_equal (astype_str L Missing) ''yes''
       \<and> (length ks \<le> length sloved \<longrightarrow>
             length (snd (group_of ks sloved k)) = count_list ks k)"
proof -
  let ?g = "snd (group_of ks sloved k)"
  from assms(1,2,3,4,6) obtain sloved' where
    s: "getcol df ''sloved'' = Inr sloved'"
    and a: "cell_at t ms ''solved_count'' =
       Some (count_true (\<lambda>c. str_lower L c = ''yes'') (group_of ks sloved' k))"
    and b: "cell_at t ms ''not_solved_count'' =
       Some (count_true (\<lambda>c. str_lower L c \<noteq> ''yes'') (group_of ks sloved' k))"
    by (rule chd_row)
  from s assms(5) have eq: "sloved' = sloved" by simp
  have a': "cell_at t ms ''solved_count'' =
      Some (IntV (int (length (filter (\<lambda>c. ci_equal (astype_str L c) ''yes'') ?g))))"
    using a unfolding eq by (simp add: count_true_def lower_yes str_lower_def)
  have b': "cell_at t ms ''not_solved_count'' =
      Some (IntV (int (length (filter (\<lambda>c. \<not> ci_equal (astype_str L c) ''yes'') ?g))))"
    using b unfolding eq by (simp add: count_true_def lower_yes str_lower_def)
  have sum: "int (length (filter (\<lambda>c. ci_equal (astype_str L c) ''yes'') ?g))
      + int (length (filter (\<lambda>c. \<not> ci_equal (astype_str L c) ''yes'') ?g)) = int (length ?g)"
    using filter_split_count[of "\<lambda>c. ci_equal (astype_str L c) ''yes''" ?g] by linarith
  have m: "\<not> ci_equal (astype_str L Missing) ''yes''"
    using str_lower_Missing[of L] by (simp add: lower_yes str_lower_def)
  have n: "length ks \<le> length sloved \<longrightarrow> length ?g = count_list ks k"
    by (simp add: group_size)
  from a' b' sum m n show ?thesis by blast
qed

lemma survey_chd_loaded:
  "load_one demo_pandas (Pipeline survey_workbook) ''CHD'' = Inr survey_chd"
  by code_simp

lemma survey_key_columns: "key_columns survey_chd = Inr survey_keys"
  by code_simp

lemma survey_row_in_kpi: "((TsV 1, StrV ''A2''), survey_row) \<in> set (trows survey_kpi)"
  by (simp add: survey_kpi_def)

lemma survey_group: "(TsV 1, StrV ''A2'') \<in> set (group_keys survey_keys)"
  by code_simp

theorem solved_and_not_solved_witness:
  "getcol survey_chd ''sloved'' = Inr [StrV ''YES'', StrV ''no'', Missing]
   \<and> length survey_keys \<le> length [StrV ''YES'', StrV ''no'', Missing]
   \<and> count_list survey_keys (TsV 1, StrV ''A2'') = 3
   \<and> cell_at survey_kpi survey_row ''solved_count'' = Some (IntV 1)
   \<and> cell_at survey_kpi survey_row ''not_solved_count'' = Some (IntV 2)
   \<and> length (snd (group_of survey_keys [StrV ''YES'', StrV ''no'', Missing]
        (TsV 1, StrV ''A2''))) = 3"
proof -
  have g: "getcol survey_chd ''sloved'' = Inr [StrV ''YES'', StrV ''no'', Missing]"
    by code_simp
  have n: "length survey_keys \<le> length [StrV ''YES'', StrV ''no'', Missing]"
    by (simp add: survey_keys_def)
  have c: "count_list survey_keys (TsV 1, StrV ''A2'') = 3"
    by (simp add: survey_keys_def)
  have a: "cell_at survey_kpi survey_row ''solved_count'' = Some (IntV 1)"
    by code_simp
  have b: "cell_at survey_kpi survey_row ''not_solved_count'' = Some (IntV 2)"
    by code_simp
  from solved_and_not_solved [OF survey_kpi_run survey_row_in_kpi survey_chd_loaded
      survey_key_columns g survey_group] g n c a b
  show ?thesis by simp
qed

subsection \<open>Attendance counts\<close>

lemma cho_agg_Inr:
  assumes "cho_agg L df = Inr a"
  obtains ks status where "key_columns df = Inr ks" "getcol df ''status'' = Inr status"
  using assms unfolding cho_agg_def by (auto dest!: bind_err_Inr)

lemma cho_row:
  assumes "build_db L p = (Inr t, p')" and "(k, ms) \<in> set (trows t)"
    and "load_one L p ''CHO'' = Inr df" and "key_columns df = Inr ks"
    and "k \<in> set (group_keys ks)"
  obtains status where "getcol df ''status'' = Inr status"
    "cell_at t ms ''absent'' =
       Some (count_true (\<lambda>c. str_lower L c = ''no show'') (group_of ks status k))"
    "cell_at t ms ''scheduled'' =
       Some (count_true (\<lambda>c. str_lower L c \<notin> set [''off'']) (group_of ks status k))"
proof -
  from assms(1,2) obtain f1 k1 a1
    x1 x2 y1 y2 y3 z1 z2 z3 z4 z5 w1 w2 w3 w4 w5 w6 w7 w8 where
    ld: "load_one L p ''CHO'' = Inr f1" and kc: "key_columns f1 = Inr k1"
    and ag: "cho_agg L f1 = Inr a1"
    and j1: "joined a1 k = [x1, x2]"
    and cells: "cell_at t ms = map_of (zip
       [''absent'', ''scheduled'', ''ans_vol'',
        ''aht_min'', ''art_min'', ''surveyed_count'', ''solved_count'',
        ''not_solved_count'', ''csat_count'', ''dsat_count'',
        ''evaluated_count'', ''pass_eval_count'', ''fail_eval_count'',
        ''rc1_fail'', ''rc2_fail'', ''rc_fail'', ''bc_fail'', ''cc_fail'']
       (map (\<lambda>c. if c = Missing then IntV 0 else c)
         [x1, x2, y1, y2, y3, z1, z2, z3, z4, z5, w1, w2, w3, w4, w5, w6, w7, w8]))"
    by (rule final_row_cells)
  from ld assms(3) have f1: "f1 = df" by simp
  from ag f1 obtain status where g: "getcol df ''status'' = Inr status"
    by (auto elim: cho_agg_Inr)
  from cho_agg_rows[OF ag[unfolded f1] assms(4) g]
  have "joined a1 k = [count_true (\<lambda>c. str_lower L c = ''no show'') (group_of ks status k),
       count_true (\<lambda>c. str_lower L c \<notin> set [''off'']) (group_of ks status k)]"
    using assms(5) by (rule joined_present)
  with j1 have x: "x1 = count_true (\<lambda>c. str_lower L c = ''no show'') (group_of ks status k)"
    "x2 = count_true (\<lambda>c. str_lower L c \<notin> set [''off'']) (group_of ks status k)"
    by simp_all
  have nm: "count_true P x \<noteq> Missing" for P x
    by (simp add: count_true_def)
  show thesis
    by (rule that[OF g]) (simp_all add: cells x nm del: set_simps)
qed

text \<open>
  C9. For a group of the Attendance sheet CHO, every row whose status is missing is counted in
  \<^verbatim>\<open>scheduled\<close> and none is counted in \<^verbatim>\<open>absent\<close>: the comparison is made on the text
  of the status in lower case, and a missing status is the text \<^verbatim>\<open>nan\<close>.
\<close>

theorem missing_status_is_scheduled:
  assumes "build_db L p = (Inr t, p')" and "(k, ms) \<in> set (trows t)"
    and "load_one L p ''CHO'' = Inr df" and "key_columns df = Inr ks"
    and "getcol df ''status'' = Inr status" and "k \<in> set (group_keys ks)"
  shows "cell_at t ms ''scheduled'' =
           Some (IntV (int (length (filter (\<lambda>c. c = Missing) (snd (group_of ks status k))))
             + int (length (filter (\<lambda>c. c \<noteq> Missing \<and> str_lower L c \<noteq> ''off'')
                 (snd (group_of ks status k))))))
       \<and> cell_at t ms ''absent'' =
           Some (IntV (int (length (filter (\<lambda>c. c \<noteq> Missing \<and> str_lower L c = ''no show'')
                 (snd (group_of ks status k))))))
       \<and> str_lower L Missing = ''nan''"
proof -
  let ?g = "snd (group_of ks status k)"
  from assms(1,2,3,4,6) obtain status' where
    s: "getcol df ''status'' = Inr status'"
    and a: "cell_at t ms ''absent'' =
       Some (count_true (\<lambda>c. str_lower L c = ''no show'') (group_of ks status' k))"
    and b: "cell_at t ms ''scheduled'' =
       Some (count_true (\<lambda>c. str_lower L c \<notin> set [''off'']) (group_of ks status' k))"
    by (rule cho_row)
  from s assms(5) have eq: "status' = status" by simp
  note nan = str_lower_Missing[of L]
  have "length (filter (\<lambda>c. str_lower L c \<noteq> ''off'') ?g) =
      length (filter (\<lambda>c. c = Missing) ?g)
      + length (filter (\<lambda>c. c \<noteq> Missing \<and> str_lower L c \<noteq> ''off'') ?g)"
    by (rule filter_missing_count) (simp add: nan)
  with b have b': "cell_at t ms ''scheduled'' =
           Some (IntV (int (length (filter (\<lambda>c. c = Missing) ?g))
             + int (length (filter (\<lambda>c. c \<noteq> Missing \<and> str_lower L c \<noteq> ''off'') ?g))))"
    unfolding eq by (simp add: count_true_def)
  have "filter (\<lambda>c. str_lower L c = ''no show'') ?g =
      filter (\<lambda>c. c \<noteq> Missing \<and> str_lower L c = ''no show'') ?g"
    by (rule filter_cong) (auto simp: nan)
  with a have a': "cell_at t ms ''absent'' =
           Some (IntV (int (length (filter (\<lambda>c. c \<noteq> Missing \<and> str_lower L c = ''no show'') ?g))))"
    unfolding eq by (simp add: count_true_def)
  from a' b' nan show ?thesis by blast
qed

lemma attendance_cho_loaded:
  "load_one demo_pandas (Pipeline attendance_workbook) ''CHO'' = Inr attendance_cho"
  by code_simp

lemma attendance_key_columns: "key_columns attendance_cho = Inr attendance_keys"
  by code_simp

lemma attendance_row_in_kpi: "((TsV 0, StrV ''A1''), attendance_row) \<in> set (trows attendance_kpi)"
  by (simp add: attendance_kpi_def)

lemma attendance_group: "(TsV 0, StrV ''A1'') \<in> set (group_keys attendance_keys)"
  by code_simp

theorem missing_status_is_scheduled_witness:
  "getcol attendance_cho ''status'' = Inr [Missing, StrV ''Off'', StrV ''No Show'']
   \<and> snd (group_of attendance_keys [Missing, StrV ''Off'', StrV ''No Show'']
        (TsV 0, StrV ''A1'')) = [Missing, StrV ''Off'', StrV ''No Show'']
   \<and> cell_at attendance_kpi attendance_row ''scheduled'' = Some (IntV 2)
   \<and> cell_at attendance_kpi attendance_row ''absent'' = Some (IntV 1)"
proof -
  have g: "getcol attendance_cho ''status'' = Inr [Missing, StrV ''Off'', StrV ''No Show'']"
    by code_simp
  have v: "snd (group_of attendance_keys [Missing, StrV ''Off'', StrV ''No Show'']
        (TsV 0, StrV ''A1'')) = [Missing, StrV ''Off'', StrV ''No Show'']"
    by code_simp
  have l: "str_lower demo_pandas (StrV ''Off'') = ''off''"
    "str_lower demo_pandas (StrV ''No Show'') = ''no show''"
    by code_simp+
  from missing_status_is_scheduled [OF attendance_kpi_run attendance_row_in_kpi
      attendance_cho_loaded attendance_key_columns g attendance_group] g v l
  show ?thesis by simp
qed

subsection \<open>Agent identifiers\<close>

lemma getcol_update_same: "getcol (AList.update c v df) c = Inr v"
  by (simp add: getcol_def update_conv')

lemma getcol_update_other: "c' \<noteq> c \<Longrightarrow> getcol (AList.update c v df) c' = getcol df c'"
  by (simp add: getcol_def update_conv')

lemma to_datetime_length: "to_datetime L col = Inr col' \<Longrightarrow> length col' = length col"
  unfolding to_datetime_def by (drule sequence_err_length) simp

lemma standardize_key_columns:
  assumes "standardize L df = Inr f"
    and "getcol (normalized df) ''date'' = Inr dcol"
    and "getcol (normalized df) ''agentmis'' = Inr acol"
  shows "\<exists>dcol'. to_datetime L dcol = Inr dcol'
     \<and> key_columns f = Inr (zip dcol' (map (\<lambda>c. StrV (astype_str L c)) acol))"
proof -
  let ?n = "normalized df"
  have cd: "''date'' \<in> set (columns ?n)" using assms(2) by (rule getcol_columns)
  have ca: "''agentmis'' \<in> set (columns ?n)" using assms(3) by (rule getcol_columns)
  from assms(1) cd assms(2) obtain dcol' where
    td: "to_datetime L dcol = Inr dcol'"
    and 2: "(if ''agentmis'' \<in> set (columns (AList.update ''date'' dcol' ?n))
           then bind_err (getcol (AList.update ''date'' dcol' ?n) ''agentmis'') (\<lambda>a.
                Inr (AList.update ''agentmis'' (map (\<lambda>c. StrV (astype_str L c)) a)
                  (AList.update ''date'' dcol' ?n)))
           else Inr (AList.update ''date'' dcol' ?n)) = Inr f"
    by (cases "to_datetime L dcol") (auto simp: standardize_normalized bind_err_def)
  have "''agentmis'' \<in> set (columns (AList.update ''date'' dcol' ?n))"
    using ca cd by (simp add: columns_update)
  with 2 assms(3) have f: "f = AList.update ''agentmis'' (map (\<lambda>c. StrV (astype_str L c)) acol)
                  (AList.update ''date'' dcol' ?n)"
    by (simp add: getcol_update_other bind_err_def)
  have "getcol f ''date'' = Inr dcol'"
    unfolding f by (simp add: getcol_update_other getcol_update_same)
  moreover have "getcol f ''agentmis'' = Inr (map (\<lambda>c. StrV (astype_str L c)) acol)"
    unfolding f by (simp add: getcol_update_same)
  ultimately have "key_columns f = Inr (zip dcol' (map (\<lambda>c. StrV (astype_str L c)) acol))"
    by (simp add: key_columns_def bind_err_def)
  with td show ?thesis by blast
qed

lemma standardize_agentmis:
  assumes "standardize L df = Inr f" and "key_columns f = Inr ks"
  shows "\<exists>acol. getcol (normalized df) ''agentmis'' = Inr acol
     \<and> snd ` set ks \<subseteq> (\<lambda>c. StrV (astype_str L c)) ` set acol"
proof -
  from assms(2) have "''date'' \<in> set (columns f)" "''agentmis'' \<in> set (columns f)"
    by (auto simp: key_columns_def dest!: bind_err_Inr dest: getcol_columns)
  then have "''date'' \<in> set (columns (normalized df))" "''agentmis'' \<in> set (columns (normalized df))"
    by (simp_all add: standardize_columns[OF assms(1)])
  then obtain dcol acol where g: "getcol (normalized df) ''date'' = Inr dcol"
    "getcol (normalized df) ''agentmis'' = Inr acol"
    using getcol_present by blast
  from standardize_key_columns[OF assms(1) g] assms(2) obtain dcol' where
    "ks = zip dcol' (map (\<lambda>c. StrV (astype_str L c)) acol)" by auto
  then have "snd ` set ks \<subseteq> (\<lambda>c. StrV (astype_str L c)) ` set acol"
    by (auto dest: set_zip_rightD)
  with g(2) show ?thesis by blast
qed

text \<open>
  When the identifier column also holds an identifier that is not a number, the loader delivers
  it as text and \<^verbatim>\<open>astype(str)\<close> keeps every identifier, \<^verbatim>\<open>007\<close> included.
\<close>

lemma mixed_identifiers_kept:
  "load_one demo_pandas (Pipeline mixed_ids_workbook) ''CHO'' =
     Inr [(''date'', [TsV 0, TsV 0]), (''agentmis'', [StrV ''007'', StrV ''A1'']),
          (''status'', [StrV ''Present'', StrV ''Off''])]
   \<and> fst (build_db demo_pandas (Pipeline mixed_ids_workbook)) = Inr mixed_ids_kpi
   \<and> map (snd \<circ> fst) (trows mixed_ids_kpi) = [StrV ''007'', StrV ''A1'']"
proof -
  have "load_one demo_pandas (Pipeline mixed_ids_workbook) ''CHO'' =
     Inr [(''date'', [TsV 0, TsV 0]), (''agentmis'', [StrV ''007'', StrV ''A1'']),
          (''status'', [StrV ''Present'', StrV ''Off''])]"
    by code_simp
  moreover have "fst (build_db demo_pandas (Pipeline mixed_ids_workbook)) = Inr mixed_ids_kpi"
    by code_simp
  moreover have "map (snd \<circ> fst) (trows mixed_ids_kpi) = [StrV ''007'', StrV ''A1'']"
    by (simp add: mixed_ids_kpi_def)
  ultimately show ?thesis by blast
qed

text \<open>
  C4. The pipeline at a workbook whose CHO sheet stores the one agent identifier
  \<^verbatim>\<open>00123\<close> as text. \<open>standardize\<close> forces the identifier column to text, but only after
  \<^verbatim>\<open>pd.read_excel\<close>, called without \<^verbatim>\<open>dtype\<close>, has delivered the column as the number
  123: the loaded sheet and the returned table hold \<^verbatim>\<open>123\<close>, and the leading zeros of the
  stored identifier are gone.
\<close>

theorem numeric_text_identifier_reformatted:
  "map_of numeric_ids_workbook ''CHO'' =
     Some [(''date'', [StrV ''2024-01-01'']), (''agentmis'', [StrV ''00123'']),
           (''status'', [StrV ''Present''])]
   \<and> read_excel demo_pandas (file' (Pipeline numeric_ids_workbook)) ''CHO'' =
     Inr [(''date'', [StrV ''2024-01-01'']), (''agentmis'', [IntV 123]),
          (''status'', [StrV ''Present''])]
   \<and> load_one demo_pandas (Pipeline numeric_ids_workbook) ''CHO'' =
     Inr [(''date'', [TsV 0]), (''agentmis'', [StrV ''123'']),
          (''status'', [StrV ''Present''])]
   \<and> fst (build_db demo_pandas (Pipeline numeric_ids_workbook)) = Inr numeric_ids_kpi
   \<and> map (snd \<circ> fst) (trows numeric_ids_kpi) = [StrV ''123'']"
proof -
  have "map_of numeric_ids_workbook ''CHO'' =
     Some [(''date'', [StrV ''2024-01-01'']), (''agentmis'', [StrV ''00123'']),
           (''status'', [StrV ''Present''])]"
    by (simp add: numeric_ids_workbook_def)
  moreover have "read_excel demo_pandas (file' (Pipeline numeric_ids_workbook)) ''CHO'' =
     Inr [(''date'', [StrV ''2024-01-01'']), (''agentmis'', [IntV 123]),
          (''status'', [StrV ''Present''])]"
    by code_simp
  moreover have "load_one demo_pandas (Pipeline numeric_ids_workbook) ''CHO'' =
     Inr [(''date'', [TsV 0]), (''agentmis'', [StrV ''123'']),
          (''status'', [StrV ''Present''])]"
    by code_simp
  moreover have "fst (build_db demo_pandas (Pipeline numeric_ids_workbook)) = Inr numeric_ids_kpi"
    by code_simp
  moreover have "map (snd \<circ> fst) (trows numeric_ids_kpi) = [StrV ''123'']"
    by (simp add: numeric_ids_kpi_def)
  ultimately show ?thesis by blast
qed

subsection \<open>The statistics\<close>

lemma len_normalized: "len (normalized df) = len df"
  by (cases df) (auto simp: len_def normalized_def split: prod.splits)

lemma len_update:
  assumes "getcol df c = Inr v0" "length v = length v0"
  shows "len (AList.update c v df) = len df"
proof (cases df)
  case Nil
  with assms show ?thesis by (simp add: getcol_def)
next
  case (Cons a rest)
  obtain c0 v1 where a: "a = (c0, v1)" by (cases a)
  with assms Cons show ?thesis
    by (cases "c0 = c") (auto simp: len_def getcol_def)
qed

lemma standardize_len:
  assumes "standardize L df = Inr f"
  shows "len f = len df"
proof -
  let ?n = "normalized df"
  from assms obtain df1 where 1: "(if ''date'' \<in> set (columns ?n)
         then bind_err (getcol ?n ''date'') (\<lambda>d.
              bind_err (to_datetime L d) (\<lambda>d'. Inr (AList.update ''date'' d' ?n)))
         else Inr ?n) = Inr df1"
    and 2: "(if ''agentmis'' \<in> set (columns df1)
           then bind_err (getcol df1 ''agentmis'') (\<lambda>a.
                Inr (AList.update ''agentmis'' (map (\<lambda>c. StrV (astype_str L c)) a) df1))
           else Inr df1) = Inr f"
    unfolding standardize_normalized by (blast dest: bind_err_Inr)
  from 1 have "len df1 = len ?n"
    by (auto split: if_splits dest!: bind_err_Inr simp: len_update to_datetime_length)
  moreover from 2 have "len f = len df1"
    by (auto split: if_splits dest!: bind_err_Inr simp: len_update)
  ultimately show ?thesis by (simp add: len_normalized)
qed

lemma timestamps_set: "set (timestamps cs) = {t. TsV t \<in> set cs}"
  by (induction cs rule: timestamps.induct) auto

lemma min_date_TsV:
  assumes "min_date cs = TsV lo"
  shows "TsV lo \<in> set cs \<and> (\<forall>x. TsV x \<in> set cs \<longrightarrow> lo \<le> x)"
proof -
  from assms obtain t ts where ts: "timestamps cs = t # ts" and lo: "lo = fold min ts t"
    by (auto simp: min_date_def split: list.splits)
  have "lo = Min (set (t # ts))" unfolding lo by (simp only: Min.set_eq_fold)
  then have "lo \<in> set (timestamps cs)" "\<forall>x \<in> set (timestamps cs). lo \<le> x"
    unfolding ts using Min_in[of "set (t # ts)"] Min_le[of "set (t # ts)"] by auto
  then show ?thesis by (simp add: timestamps_set)
qed

lemma max_date_TsV:
  assumes "max_date cs = TsV hi"
  shows "TsV hi \<in> set cs \<and> (\<forall>x. TsV x \<in> set cs \<longrightarrow> x \<le> hi)"
proof -
  from assms obtain t ts where ts: "timestamps cs = t # ts" and hi: "hi = fold max ts t"
    by (auto simp: max_date_def split: list.splits)
  have "hi = Max (set (t # ts))" unfolding hi by (simp only: Max.set_eq_fold)
  then have "hi \<in> set (timestamps cs)" "\<forall>x \<in> set (timestamps cs). x \<le> hi"
    unfolding ts using Max_in[of "set (t # ts)"] Max_ge[of "set (t # ts)"] by auto
  then show ?thesis by (simp add: timestamps_set)
qed

lemma date_range_Inr:
  assumes "date_range L ds = Inr s"
  shows "\<exists>lo hi. s = strftime L lo @ '' to '' @ strftime L hi
     \<and> min_date ds = TsV lo \<and> max_date ds = TsV hi"
  using assms
  by (auto simp: date_range_def strftime_ymd_def dest!: bind_err_Inr split: cell.splits)

lemma nunique_card: "nunique cs = card (set cs - {Missing})"
proof -
  have "set (filter (\<lambda>c. c \<noteq> Missing) cs) = set cs - {Missing}" by auto
  then show ?thesis by (simp add: nunique_def length_remdups_card_conv)
qed

lemma agents_are_text:
  assumes "load_one L p s = Inr f" "key_columns f = Inr ks"
  shows "Missing \<notin> snd ` set ks"
proof -
  from assms(1) obtain df where "standardize L df = Inr f"
    unfolding load_one_def by (blast dest: bind_err_Inr)
  from standardize_agentmis[OF this assms(2)] show ?thesis by auto
qed

text \<open>
  C5, as the code has it. \<open>build_db\<close> is a method of a pipeline built on the workbook and
  returns the KPI table alone. After a successful run the table is also the \<^verbatim>\<open>base\<close> of the
  pipeline, and the \<^verbatim>\<open>stats\<close> of the pipeline hold the number of rows of each of the four
  sheets, the number of rows of the table, the number of distinct agent identifiers in it, and
  the date range: the least and the greatest date of the table, formatted and joined by
  \<^verbatim>\<open> to \<close>.
\<close>

theorem statistics_in_pipeline_state:
  assumes "build_db L p = (Inr t, p')"
    and "read_excel L (file' p) ''CHO'' = Inr d1" and "read_excel L (file' p) ''CHT'' = Inr d2"
    and "read_excel L (file' p) ''CHD'' = Inr d3" and "read_excel L (file' p) ''CHE'' = Inr d4"
  shows "base p' = Some t
       \<and> stats p' ''cho_rows'' = Some (IntV (int (len d1)))
       \<and> stats p' ''cht_rows'' = Some (IntV (int (len d2)))
       \<and> stats p' ''chd_rows'' = Some (IntV (int (len d3)))
       \<and> stats p' ''che_rows'' = Some (IntV (int (len d4)))
       \<and> stats p' ''total_records'' = Some (IntV (int (length (trows t))))
       \<and> stats p' ''unique_agents'' = Some (IntV (int (card (snd ` fst ` set (trows t)))))
       \<and> (\<exists>lo hi. stats p' ''date_range'' = Some (StrV (strftime L lo @ '' to '' @ strftime L hi))
             \<and> TsV lo \<in> fst ` fst ` set (trows t) \<and> TsV hi \<in> fst ` fst ` set (trows t)
             \<and> (\<forall>x. TsV x \<in> fst ` fst ` set (trows t) \<longrightarrow> lo \<le> x \<and> x \<le> hi))"
proof -
  from assms(1) obtain f1 f2 f3 f4 k1 k2 k3 k4 s where
    ld: "load_one L p ''CHO'' = Inr f1" "load_one L p ''CHT'' = Inr f2"
        "load_one L p ''CHD'' = Inr f3" "load_one L p ''CHE'' = Inr f4"
    and kc: "key_columns f1 = Inr k1" "key_columns f2 = Inr k2"
        "key_columns f3 = Inr k3" "key_columns f4 = Inr k4"
    and dr: "date_range L (map fst (drop_duplicates (k1 @ k2 @ k3 @ k4))) = Inr s"
    and p': "p' = p\<lparr>cho := Some f1, cht := Some f2, chd := Some f3, che := Some f4, base := Some t,
        stats := (stats p)
           (''cho_rows'' \<mapsto> IntV (int (len f1)),
            ''cht_rows'' \<mapsto> IntV (int (len f2)),
            ''chd_rows'' \<mapsto> IntV (int (len f3)),
            ''che_rows'' \<mapsto> IntV (int (len f4)),
            ''unique_agents'' \<mapsto> IntV (int (nunique (map snd (drop_duplicates (k1 @ k2 @ k3 @ k4))))),
            ''date_range'' \<mapsto> StrV s,
            ''total_records'' \<mapsto> IntV (int (length (drop_duplicates (k1 @ k2 @ k3 @ k4)))))\<rparr>"
    by (rule build_db_Inr)
  let ?dd = "drop_duplicates (k1 @ k2 @ k3 @ k4)"
  from assms(1) obtain g1 g2 g3 g4 h1 h2 h3 h4 where
    ld': "load_one L p ''CHO'' = Inr g1" "load_one L p ''CHT'' = Inr g2"
        "load_one L p ''CHD'' = Inr g3" "load_one L p ''CHE'' = Inr g4"
    and kc': "key_columns g1 = Inr h1" "key_columns g2 = Inr h2"
        "key_columns g3 = Inr h3" "key_columns g4 = Inr h4"
    and rows': "map fst (trows t) = drop_duplicates (h1 @ h2 @ h3 @ h4)"
    by (rule final_table) (simp add: comp_def)
  from ld ld' kc kc' have "h1 = k1" "h2 = k2" "h3 = k3" "h4 = k4" by simp_all
  with rows' have rows: "map fst (trows t) = ?dd" by simp
  have len: "len f1 = len d1" "len f2 = len d2" "len f3 = len d3" "len f4 = len d4"
    using ld assms(2-5) by (auto simp: load_one_present intro: standardize_len)
  have b: "base p' = Some t" by (simp add: p')
  have r1: "stats p' ''cho_rows'' = Some (IntV (int (len d1)))" by (simp add: p' len)
  have r2: "stats p' ''cht_rows'' = Some (IntV (int (len d2)))" by (simp add: p' len)
  have r3: "stats p' ''chd_rows'' = Some (IntV (int (len d3)))" by (simp add: p' len)
  have r4: "stats p' ''che_rows'' = Some (IntV (int (len d4)))" by (simp add: p' len)
  have "length (trows t) = length ?dd" using rows by (metis length_map)
  then have tr: "stats p' ''total_records'' = Some (IntV (int (length (trows t))))"
    by (simp add: p')
  have keyset: "fst ` set (trows t) = set ?dd" using rows by (metis set_map)
  have "Missing \<notin> snd ` set (k1 @ k2 @ k3 @ k4)"
    using agents_are_text[OF ld(1) kc(1)] agents_are_text[OF ld(2) kc(2)]
      agents_are_text[OF ld(3) kc(3)] agents_are_text[OF ld(4) kc(4)]
    by (auto simp: image_Un)
  then have "Missing \<notin> set (map snd ?dd)" by (simp add: set_drop_duplicates)
  then have "nunique (map snd ?dd) = card (snd ` set ?dd)"
    by (simp add: nunique_card)
  then have ua: "stats p' ''unique_agents'' = Some (IntV (int (card (snd ` fst ` set (trows t)))))"
    by (simp add: p' keyset)
  from date_range_Inr[OF dr] obtain lo hi where
    s: "s = strftime L lo @ '' to '' @ strftime L hi"
    and lo: "min_date (map fst ?dd) = TsV lo" and hi: "max_date (map fst ?dd) = TsV hi"
    by blast
  have ds: "set (map fst ?dd) = fst ` fst ` set (trows t)" by (simp add: keyset)
  have rg: "stats p' ''date_range'' = Some (StrV (strftime L lo @ '' to '' @ strftime L hi))"
    by (simp add: p' s)
  from min_date_TsV[OF lo] max_date_TsV[OF hi]
  have "TsV lo \<in> fst ` fst ` set (trows t) \<and> TsV hi \<in> fst ` fst ` set (trows t)
     \<and> (\<forall>x. TsV x \<in> fst ` fst ` set (trows t) \<longrightarrow> lo \<le> x \<and> x \<le> hi)"
    unfolding ds by blast
  with rg have "\<exists>lo hi. stats p' ''date_range'' = Some (StrV (strftime L lo @ '' to '' @ strftime L hi))
             \<and> TsV lo \<in> fst ` fst ` set (trows t) \<and> TsV hi \<in> fst ` fst ` set (trows t)
             \<and> (\<forall>x. TsV x \<in> fst ` fst ` set (trows t) \<longrightarrow> lo \<le> x \<and> x \<le> hi)"
    by blast
  with b r1 r2 r3 r4 tr ua show ?thesis by blast
qed

theorem statistics_in_pipeline_state_witness:
  "fst (build_db demo_pandas (Pipeline small_workbook)) = Inr small_kpi
   \<and> base (snd (build_db demo_pandas (Pipeline small_workbook))) = Some small_kpi
   \<and> stats (snd (build_db demo_pandas (Pipeline small_workbook))) ''cho_rows'' = Some (IntV 1)
   \<and> stats (snd (build_db demo_pandas (Pipeline small_workbook))) ''cht_rows'' = Some (IntV 1)
   \<and> stats (snd (build_db demo_pandas (Pipeline small_workbook))) ''chd_rows'' = Some (IntV 2)
   \<and> stats (snd (build_db demo_pandas (Pipeline small_workbook))) ''che_rows'' = Some (IntV 0)
   \<and> stats (snd (build_db demo_pandas (Pipeline small_workbook))) ''total_records''
       = Some (IntV 2)"
proof -
  have m: "read_excel demo_pandas (file' (Pipeline small_workbook)) ''CHO'' =
      Inr [(''Date'', [StrV ''2024-01-01'']), ('' AgentMIS '', [StrV ''A1'']),
            (''Status'', [StrV ''No Show''])]"
    "read_excel demo_pandas (file' (Pipeline small_workbook)) ''CHT'' =
      Inr [(''date'', [StrV ''2024-01-01'']), (''agentmis'', [StrV ''A1'']),
            (''ans_vol'', [IntV 3]), (''aht'', [IntV 3]), (''art'', [IntV 3])]"
    "read_excel demo_pandas (file' (Pipeline small_workbook)) ''CHD'' =
      Inr [(''date'', [StrV ''2024-01-02'', StrV ''2024-01-02'']),
            (''agentmis'', [StrV ''A2'', StrV ''A2'']),
            (''score'', [IntV 4, IntV 1]), (''sloved'', [StrV ''Yes'', StrV ''No''])]"
    "read_excel demo_pandas (file' (Pipeline small_workbook)) ''CHE'' =
      Inr [(''date'', []), (''agentmis'', []), (''final'', []), (''rc1'', []),
            (''rc2'', []), (''rc'', []), (''bc'', []), (''cc'', [])]"
    by code_simp+
  have n: "length (trows small_kpi) = 2" by (simp add: small_kpi_def)
  from statistics_in_pipeline_state [OF small_workbook_run m] small_workbook_kpi n
  show ?thesis by (simp add: len_def)
qed

text \<open>
  C5, as the claim states it, fails: what \<open>build_db\<close> returns does not contain the
  statistics. Two workbooks that hold the same off-day row once and twice give the same returned
  table, while the CHO row count recorded for them is 1 and 2.
\<close>

theorem returned_table_without_statistics:
  "fst (build_db demo_pandas (Pipeline off_once)) = Inr off_kpi
   \<and> fst (build_db demo_pandas (Pipeline off_twice)) = Inr off_kpi
   \<and> stats (snd (build_db demo_pandas (Pipeline off_once))) ''cho_rows'' = Some (IntV 1)
   \<and> stats (snd (build_db demo_pandas (Pipeline off_twice))) ''cho_rows'' = Some (IntV 2)"
proof -
  have "fst (build_db demo_pandas (Pipeline off_once)) = Inr off_kpi" by code_simp
  moreover have "fst (build_db demo_pandas (Pipeline off_twice)) = Inr off_kpi" by code_simp
  moreover have "stats (snd (build_db demo_pandas (Pipeline off_once))) ''cho_rows'' = Some (IntV 1)"
    by code_simp
  moreover have "stats (snd (build_db demo_pandas (Pipeline off_twice))) ''cho_rows'' = Some (IntV 2)"
    by code_simp
  ultimately show ?thesis by blast
qed

end
